theory Spec2Isabelle
  imports Main "HOL-Library.Product_Lexorder" "HOL-Library.Sublist"
begin

section \<open>The data model (models/database\_models.py)\<close>

text \<open>
  Every mapped class is a record with the columns of the class, under the names of the
  source. A nullable column is an \<open>option\<close>, \<open>None\<close> being SQL NULL and Python's
  \<open>None\<close>. The primary key of a class that the scheduler only reads is an \<open>int\<close>;
  \<open>TimeSlot\<close> and \<open>TimetableEntry\<close> are instantiated by the scheduler without
  an id, so their \<open>id\<close> is \<open>None\<close> until the store assigns one.
  The \<open>created_at\<close> columns (filled by the store's clock and read nowhere) are left out.
  Field names shared by several classes are written qualified: \<open>Unit.id u\<close>.
\<close>

datatype time = Time (hour: nat) (minute: nat) (second: nat) (microsecond: nat)

definition time :: "nat \<Rightarrow> nat \<Rightarrow> time" where
  \<comment> \<open>\<open>datetime.time(h, m)\<close>: seconds and microseconds default to 0.\<close>
  "time h m = Time h m 0 0"

record School =
  id :: int
  name :: string
  code :: string

record Department =
  id :: int
  name :: string
  code :: string
  school_id :: "int option"

record Room =
  id :: int
  name :: string
  capacity :: int
  room_type :: string

record Lecturer =
  id :: int
  name :: string
  employee_id :: string
  employment_type :: string
  max_units :: int
  phone :: "string option"
  email :: "string option"

record Unit =
  id :: int
  name :: string
  code :: string
  department_id :: "int option"
  year_level :: int
  semester :: int
  requires_lab :: "bool option"
  lecturer_id :: "int option"

record StudentGroup =
  id :: int
  department_id :: "int option"
  year_level :: int
  group_size :: int

record TimeSlot =
  id :: "int option"
  day_of_week :: int
  start_time :: time
  end_time :: time
  session_type :: string

record TimetableEntry =
  id :: "int option"
  unit_id :: "int option"
  lecturer_id :: "int option"
  room_id :: "int option"
  time_slot_id :: "int option"
  student_group_id :: "int option"
  week_type :: "string option"

record ValidationResult =
  is_valid :: bool
  conflicts :: "string list"
  warnings :: "string list"

subsection \<open>The store behind \<open>self.db\<close>\<close>

text \<open>
  The session \<open>self.db\<close> is a relational store: one list of rows per table, in the order
  in which the store returns them, and the id sequence of each of the two tables the
  scheduler inserts into. \<open>query(C).all()\<close> is the table, \<open>query(C).filter(P).first()\<close>
  is \<open>find P\<close> on it. A filter \<open>C.col == v\<close> is equality of \<open>option\<close> values:
  SQLAlchemy renders a comparison with \<open>None\<close> as \<open>IS NULL\<close>, and a comparison of
  NULL with a value selects nothing.
\<close>

record database =
  schools :: "School list"
  departments :: "Department list"
  rooms :: "Room list"
  lecturers :: "Lecturer list"
  units :: "Unit list"
  student_groups :: "StudentGroup list"
  time_slots :: "TimeSlot list"
  timetable_entries :: "TimetableEntry list"
  time_slots_id_seq :: int
  timetable_entries_id_seq :: int

text \<open>
  \<open>add_all\<close> followed by \<open>commit\<close> inserts the pending objects in order. A row
  inserted without an id takes the next value of the table's sequence; an entry inserted
  without a week type takes the column default \<open>"all"\<close>. After the commit the objects
  the caller holds carry the values of their rows.
\<close>

fun flush_time_slots :: "int \<Rightarrow> TimeSlot list \<Rightarrow> int \<times> TimeSlot list" where
  "flush_time_slots seq [] = (seq, [])"
| "flush_time_slots seq (x # xs) =
     (case TimeSlot.id x of
        None \<Rightarrow> (let (seq', ys) = flush_time_slots (seq + 1) xs
                 in (seq', x\<lparr>TimeSlot.id := Some (seq + 1)\<rparr> # ys))
      | Some _ \<Rightarrow> (let (seq', ys) = flush_time_slots seq xs in (seq', x # ys)))"

definition add_all_time_slots :: "database \<Rightarrow> TimeSlot list \<Rightarrow> database \<times> TimeSlot list" where
  "add_all_time_slots db xs =
     (let (seq', saved) = flush_time_slots (time_slots_id_seq db) xs
      in (db\<lparr>time_slots := time_slots db @ saved, time_slots_id_seq := seq'\<rparr>, saved))"

definition with_defaults :: "TimetableEntry \<Rightarrow> TimetableEntry" where
  "with_defaults e =
     (case week_type e of None \<Rightarrow> e\<lparr>week_type := Some ''all''\<rparr> | Some _ \<Rightarrow> e)"

fun flush_entries :: "int \<Rightarrow> TimetableEntry list \<Rightarrow> int \<times> TimetableEntry list" where
  "flush_entries seq [] = (seq, [])"
| "flush_entries seq (x # xs) =
     (case TimetableEntry.id x of
        None \<Rightarrow> (let (seq', ys) = flush_entries (seq + 1) xs
                 in (seq', with_defaults (x\<lparr>TimetableEntry.id := Some (seq + 1)\<rparr>) # ys))
      | Some _ \<Rightarrow> (let (seq', ys) = flush_entries seq xs in (seq', with_defaults x # ys)))"

definition add_all_entries ::
  "database \<Rightarrow> TimetableEntry list \<Rightarrow> database \<times> TimetableEntry list" where
  "add_all_entries db xs =
     (let (seq', saved) = flush_entries (timetable_entries_id_seq db) xs
      in (db\<lparr>database.timetable_entries := database.timetable_entries db @ saved,
              timetable_entries_id_seq := seq'\<rparr>, saved))"

text \<open>Primary keys: no two rows of a table have the same id.\<close>

definition primary_keys_unique :: "database \<Rightarrow> bool" where
  "primary_keys_unique db \<longleftrightarrow>
     distinct (map School.id (schools db)) \<and>
     distinct (map Department.id (departments db)) \<and>
     distinct (map Room.id (rooms db)) \<and>
     distinct (map Lecturer.id (lecturers db)) \<and>
     distinct (map Unit.id (units db)) \<and>
     distinct (map StudentGroup.id (student_groups db)) \<and>
     distinct (map TimeSlot.id (time_slots db)) \<and>
     distinct (map TimetableEntry.id (database.timetable_entries db))"

section \<open>Python helpers\<close>

datatype error = AttributeError | KeyError | IndexError

definition truthy :: "bool option \<Rightarrow> bool" where
  \<comment> \<open>The truth value of a nullable Boolean: \<open>None\<close> is false.\<close>
  "truthy b = (case b of None \<Rightarrow> False | Some v \<Rightarrow> v)"

fun str_nat :: "nat \<Rightarrow> string" where
  "str_nat n =
     (if n < 10 then [''0123456789'' ! n]
      else str_nat (n div 10) @ [''0123456789'' ! (n mod 10)])"

definition str_int :: "int \<Rightarrow> string" where
  "str_int i = (if i < 0 then CHR ''-'' # str_nat (nat (- i)) else str_nat (nat i))"

definition str_opt :: "int option \<Rightarrow> string" where
  \<comment> \<open>How an f-string renders an id that may be \<open>None\<close>.\<close>
  "str_opt v = (case v of None \<Rightarrow> ''None'' | Some i \<Rightarrow> str_int i)"

text \<open>
  A \<open>defaultdict(list)\<close> filled by \<open>d[k].append(v)\<close>: the keys stay in the order of
  their first insertion, which is the order in which \<open>items()\<close> yields them.
\<close>

fun dd_append :: "'k \<Rightarrow> 'v \<Rightarrow> ('k \<times> 'v list) list \<Rightarrow> ('k \<times> 'v list) list" where
  "dd_append k v [] = [(k, [v])]"
| "dd_append k v ((k', vs) # m) =
     (if k' = k then (k', vs @ [v]) # m else (k', vs) # dd_append k v m)"

text \<open>
  \<open>random.choice(seq)\<close> is \<open>seq[randbelow(len(seq))]\<close> and raises IndexError on an
  empty sequence. The generator's random numbers are a parameter \<open>rnd :: nat \<Rightarrow> nat\<close>,
  the n-th draw being \<open>rnd n\<close> reduced modulo the length, so that every element can be
  chosen.
\<close>

definition choice :: "nat \<Rightarrow> 'a list \<Rightarrow> error + 'a" where
  "choice r xs = (if xs = [] then Inl IndexError else Inr (xs ! (r mod length xs)))"

section \<open>TimetableScheduler (services/scheduler.py)\<close>

definition day_names :: "int \<rightharpoonup> string" where
  "day_names = [1 \<mapsto> ''Monday'', 2 \<mapsto> ''Tuesday'', 3 \<mapsto> ''Wednesday'',
                4 \<mapsto> ''Thursday'', 5 \<mapsto> ''Friday'']"

subsection \<open>generate\_time\_slots\<close>

definition spas_sessions :: "(time \<times> time) list" where
  "spas_sessions =
     [(time 7 0, time 10 0), (time 10 30, time 13 30),
      (time 14 0, time 17 0), (time 16 0, time 19 0)]"

definition shs_sessions :: "(time \<times> time) list" where
  "shs_sessions =
     [(time 7 0, time 9 0), (time 9 0, time 11 0), (time 11 0, time 13 0),
      (time 14 0, time 16 0), (time 16 0, time 18 0), (time 17 0, time 19 0)]"

definition DBTimeSlot :: "int \<Rightarrow> time \<Rightarrow> time \<Rightarrow> string \<Rightarrow> TimeSlot" where
  "DBTimeSlot d s e t =
     \<lparr>TimeSlot.id = None, day_of_week = d, start_time = s, end_time = e, session_type = t\<rparr>"

definition new_time_slots :: "TimeSlot list" where
  \<comment> \<open>The list built by the loop over \<open>range(1, 6)\<close>.\<close>
  "new_time_slots =
     concat (map (\<lambda>day.
        map (\<lambda>(start, end). DBTimeSlot day start end ''spas_3h'') spas_sessions @
        map (\<lambda>(start, end). DBTimeSlot day start end ''shs_2h'') shs_sessions) [1..5])"

definition generate_time_slots :: "database \<Rightarrow> database \<times> TimeSlot list" where
  "generate_time_slots db = add_all_time_slots db new_time_slots"

subsection \<open>validate\_constraints\<close>

text \<open>
  The dictionaries \<open>lecturer_bookings\<close>, \<open>student_bookings\<close> and \<open>room_bookings\<close>
  of the source are filled and never read; only \<open>slot_bookings\<close> is modelled.
  The argument \<open>timetable_entries\<close> is called \<open>entries\<close> here.
\<close>

definition slot_bookings :: "TimetableEntry list \<Rightarrow> (int option \<times> TimetableEntry list) list" where
  "slot_bookings entries =
     fold (\<lambda>entry m. dd_append (time_slot_id entry) entry m) entries []"

definition double_bookings :: "int option \<times> TimetableEntry list \<Rightarrow> string list" where
  "double_bookings = (\<lambda>(slot_id, entries).
     (let lecturers = map TimetableEntry.lecturer_id entries;
          rooms = map room_id entries;
          students = map student_group_id entries
      in (if length (remdups lecturers) \<noteq> length lecturers
          then [''Lecturer double-booked in time slot '' @ str_opt slot_id] else []) @
         (if length (remdups rooms) \<noteq> length rooms
          then [''Room double-booked in time slot '' @ str_opt slot_id] else []) @
         (if length (remdups students) \<noteq> length students
          then [''Student group double-booked in time slot '' @ str_opt slot_id] else [])))"

definition lab_check :: "database \<Rightarrow> TimetableEntry \<Rightarrow> string list" where
  "lab_check db entry =
     (case find (\<lambda>u. Some (Unit.id u) = unit_id entry) (units db) of
        None \<Rightarrow> []
      | Some unit \<Rightarrow>
          (case find (\<lambda>r. Some (Room.id r) = room_id entry) (rooms db) of
             None \<Rightarrow> []
           | Some room \<Rightarrow>
               if truthy (requires_lab unit) \<and> room_type room \<noteq> ''lab''
               then [''Lab unit '' @ Unit.code unit @ '' assigned to non-lab room '' @ Room.name room]
               else []))"

definition validate_constraints :: "database \<Rightarrow> TimetableEntry list \<Rightarrow> ValidationResult" where
  "validate_constraints db entries =
     (let conflicts = concat (map double_bookings (slot_bookings entries)) @
                      concat (map (lab_check db) entries)
      in \<lparr>is_valid = (length conflicts = 0), conflicts = conflicts, warnings = []\<rparr>)"

subsection \<open>generate\_schedule\<close>

text \<open>
  The local state of one run: the entries created so far, the three occupancy indexes
  (each a \<open>defaultdict(set)\<close>, a function with default \<open>{}\<close>) keyed by lecturer id,
  room id and student-group id, and the number of random draws consumed.
  The \<open>print\<close> calls are not modelled, except for the lookup \<open>self.day_names[...]\<close>
  inside one of them, which raises KeyError on a day outside 1..5.
\<close>

type_synonym slot_key = "int \<times> time"

record sched_state =
  timetable_entries :: "TimetableEntry list"
  lecturer_schedule :: "int option \<Rightarrow> slot_key set"
  room_schedule :: "int \<Rightarrow> slot_key set"
  student_schedule :: "int \<Rightarrow> slot_key set"
  draws :: nat

definition DBTimetableEntry ::
  "int \<Rightarrow> int option \<Rightarrow> int \<Rightarrow> int option \<Rightarrow> int \<Rightarrow> TimetableEntry" where
  "DBTimetableEntry u l r t g =
     \<lparr>TimetableEntry.id = None, unit_id = Some u, lecturer_id = l, room_id = Some r,
      time_slot_id = t, student_group_id = Some g, week_type = None\<rparr>"

text \<open>The \<open>while not scheduled and attempts < max_attempts\<close> loop.\<close>

function placement_loop ::
  "(nat \<Rightarrow> nat) \<Rightarrow> Unit \<Rightarrow> StudentGroup \<Rightarrow> TimeSlot list \<Rightarrow> Room list \<Rightarrow> nat \<Rightarrow>
   bool \<Rightarrow> nat \<Rightarrow> sched_state \<Rightarrow> error + bool \<times> nat \<times> sched_state" where
  "placement_loop rnd unit student_group available_slots suitable_rooms max_attempts
     scheduled attempts st =
     (if \<not> scheduled \<and> attempts < max_attempts then
        (case choice (rnd (draws st)) available_slots of
           Inl e \<Rightarrow> Inl e
         | Inr slot \<Rightarrow>
        (case choice (rnd (draws st + 1)) suitable_rooms of
           Inl e \<Rightarrow> Inl e
         | Inr room \<Rightarrow>
          (let st1 = st\<lparr>draws := draws st + 2\<rparr>;
               slot_key = (day_of_week slot, start_time slot);
               lecturer_conflict = slot_key \<in> lecturer_schedule st1 (Unit.lecturer_id unit);
               room_conflict = slot_key \<in> room_schedule st1 (Room.id room);
               student_conflict = slot_key \<in> student_schedule st1 (StudentGroup.id student_group)
           in if \<not> (lecturer_conflict \<or> room_conflict \<or> student_conflict) then
                (let entry = DBTimetableEntry (Unit.id unit) (Unit.lecturer_id unit) (Room.id room)
                               (TimeSlot.id slot) (StudentGroup.id student_group);
                     st2 = st1\<lparr>timetable_entries := timetable_entries st1 @ [entry],
                       lecturer_schedule := (lecturer_schedule st1)
                         (Unit.lecturer_id unit :=
                            insert slot_key (lecturer_schedule st1 (Unit.lecturer_id unit))),
                       room_schedule := (room_schedule st1)
                         (Room.id room := insert slot_key (room_schedule st1 (Room.id room))),
                       student_schedule := (student_schedule st1)
                         (StudentGroup.id student_group :=
                            insert slot_key
                              (student_schedule st1 (StudentGroup.id student_group)))\<rparr>
                 in (case day_names (day_of_week slot) of
                       None \<Rightarrow> Inl KeyError
                     | Some _ \<Rightarrow>
                         placement_loop rnd unit student_group available_slots suitable_rooms
                           max_attempts True (attempts + 1) st2))
              else placement_loop rnd unit student_group available_slots suitable_rooms
                     max_attempts False (attempts + 1) st1)))
      else Inr (scheduled, attempts, st))"
  by pat_completeness auto
termination
  by (relation "measure (\<lambda>(rnd, unit, student_group, available_slots, suitable_rooms,
        max_attempts, scheduled, attempts, st). max_attempts - attempts)") auto

declare placement_loop.simps [simp del]

text \<open>The body of \<open>for i, unit in enumerate(sorted_units)\<close>; \<open>continue\<close> returns the state as it is.\<close>

definition schedule_unit ::
  "database \<Rightarrow> (nat \<Rightarrow> nat) \<Rightarrow> Unit \<Rightarrow> sched_state \<Rightarrow> error + sched_state" where
  "schedule_unit db rnd unit st =
     (case find (\<lambda>g. StudentGroup.department_id g = Unit.department_id unit \<and>
                      StudentGroup.year_level g = Unit.year_level unit) (student_groups db) of
        None \<Rightarrow> Inr st
      | Some student_group \<Rightarrow>
     (case find (\<lambda>d. Some (Department.id d) = Unit.department_id unit) (departments db) of
        None \<Rightarrow> Inl AttributeError
      | Some dept \<Rightarrow>
     (case find (\<lambda>s. Some (School.id s) = school_id dept) (schools db) of
        None \<Rightarrow> Inl AttributeError
      | Some school \<Rightarrow>
       (let session_type = (if School.code school = ''SPAS'' then ''spas_3h'' else ''shs_2h'');
            suitable_rooms =
              (if truthy (requires_lab unit) then filter (\<lambda>r. room_type r = ''lab'') (rooms db)
               else filter (\<lambda>r. room_type r = ''normal'') (rooms db))
        in if suitable_rooms = [] then Inr st
           else
            (let available_slots =
                   filter (\<lambda>ts. TimeSlot.session_type ts = session_type) (time_slots db)
             in if available_slots = [] then Inr st
                else
                 (let max_attempts = min 100 (length available_slots * length suitable_rooms)
                  in case placement_loop rnd unit student_group available_slots suitable_rooms
                            max_attempts False 0 st of
                       Inl e \<Rightarrow> Inl e
                     | Inr (scheduled, attempts, st') \<Rightarrow> Inr st'))))))"

fun schedule_units ::
  "database \<Rightarrow> (nat \<Rightarrow> nat) \<Rightarrow> Unit list \<Rightarrow> sched_state \<Rightarrow> error + sched_state" where
  "schedule_units db rnd [] st = Inr st"
| "schedule_units db rnd (unit # sorted_units) st =
     (case schedule_unit db rnd unit st of
        Inl e \<Rightarrow> Inl e
      | Inr st' \<Rightarrow> schedule_units db rnd sorted_units st')"

definition initial_state :: sched_state where
  "initial_state =
     \<lparr>timetable_entries = [], lecturer_schedule = (\<lambda>_. {}), room_schedule = (\<lambda>_. {}),
      student_schedule = (\<lambda>_. {}), draws = 0\<rparr>"

text \<open>
  \<open>sorted(units, key=...)\<close> is a stable sort on the pair
  \<open>(not u.requires_lab, u.year_level)\<close>, ordered lexicographically with
  \<open>False < True\<close>, as \<open>sort_key\<close> is on \<open>bool \<times> int\<close>.
  The result is the store after the commit and the entries as committed.
\<close>

definition generate_schedule ::
  "database \<Rightarrow> (nat \<Rightarrow> nat) \<Rightarrow> error + database \<times> TimetableEntry list" where
  "generate_schedule db rnd =
     (if units db = [] then Inr (db, [])
      else if time_slots db = [] then Inr (db, [])
      else if rooms db = [] then Inr (db, [])
      else
       (let sorted_units =
              sort_key (\<lambda>u. (\<not> truthy (requires_lab u), Unit.year_level u)) (units db)
        in case schedule_units db rnd sorted_units initial_state of
             Inl e \<Rightarrow> Inl e
           | Inr st \<Rightarrow> Inr (add_all_entries db (timetable_entries st))))"

section \<open>Example stores\<close>

definition slot_fields :: "TimeSlot \<Rightarrow> int \<times> time \<times> time \<times> string" where
  \<comment> \<open>The columns that \<open>generate_time_slots\<close> sets itself.\<close>
  "slot_fields s = (day_of_week s, start_time s, end_time s, session_type s)"

definition empty_db :: database where
  "empty_db =
     \<lparr>schools = [], departments = [], rooms = [], lecturers = [], units = [],
      student_groups = [], time_slots = [], database.timetable_entries = [],
      time_slots_id_seq = 0, timetable_entries_id_seq = 0\<rparr>"

text \<open>
  One school, one department, a lab and a lecture hall, one lecturer teaching a lab unit
  and a lecture unit to the same student group, and two long-session slots on Monday.
\<close>

definition example_db :: database where
  "example_db =
     \<lparr>schools = [\<lparr>School.id = 1, name = ''Pure and Applied Sciences'', code = ''SPAS''\<rparr>],
      departments =
        [\<lparr>Department.id = 1, name = ''Computer Science'', code = ''CS'', school_id = Some 1\<rparr>],
      rooms = [\<lparr>Room.id = 1, name = ''Lab 1'', capacity = 30, room_type = ''lab''\<rparr>,
               \<lparr>Room.id = 2, name = ''LH 1'', capacity = 100, room_type = ''normal''\<rparr>],
      lecturers =
        [\<lparr>Lecturer.id = 1, name = ''A. Lecturer'', employee_id = ''E1'',
          employment_type = ''full_time'', max_units = 4, phone = None, email = None\<rparr>],
      units =
        [\<lparr>Unit.id = 1, name = ''Programming'', code = ''CS101'', department_id = Some 1,
          year_level = 1, semester = 1, requires_lab = Some True, lecturer_id = Some 1\<rparr>,
         \<lparr>Unit.id = 2, name = ''Logic'', code = ''CS102'', department_id = Some 1,
          year_level = 1, semester = 1, requires_lab = Some False, lecturer_id = Some 1\<rparr>],
      student_groups =
        [\<lparr>StudentGroup.id = 1, department_id = Some 1, year_level = 1, group_size = 40\<rparr>],
      time_slots =
        [\<lparr>TimeSlot.id = Some 1, day_of_week = 1, start_time = time 7 0, end_time = time 10 0,
          session_type = ''spas_3h''\<rparr>,
         \<lparr>TimeSlot.id = Some 2, day_of_week = 1, start_time = time 10 30,
          end_time = time 13 30, session_type = ''spas_3h''\<rparr>],
      database.timetable_entries = [], time_slots_id_seq = 2, timetable_entries_id_seq = 0\<rparr>"

definition entry_fields ::
  "TimetableEntry \<Rightarrow> int option \<times> int option \<times> int option \<times> int option \<times> int option" where
  \<comment> \<open>The columns that \<open>generate_schedule\<close> sets itself.\<close>
  "entry_fields e =
     (unit_id e, TimetableEntry.lecturer_id e, room_id e, time_slot_id e, student_group_id e)"

text \<open>The entries that a run on \<open>example_db\<close> commits when it draws 0, 0, 1, 1.\<close>

definition example_entries :: "TimetableEntry list" where
  "example_entries =
     [\<lparr>TimetableEntry.id = Some 1, unit_id = Some 1, lecturer_id = Some 1, room_id = Some 1,
       time_slot_id = Some 1, student_group_id = Some 1, week_type = Some ''all''\<rparr>,
      \<lparr>TimetableEntry.id = Some 2, unit_id = Some 2, lecturer_id = Some 1, room_id = Some 2,
       time_slot_id = Some 2, student_group_id = Some 1, week_type = Some ''all''\<rparr>]"

text \<open>
  The example store with its department detached from any school: \<open>school_id\<close> is
  nullable, and no foreign key is violated.
\<close>

definition orphan_db :: database where
  "orphan_db = example_db\<lparr>departments :=
     [\<lparr>Department.id = 1, name = ''Computer Science'', code = ''CS'', school_id = None\<rparr>]\<rparr>"

text \<open>A run state in which lecturer 1 is already booked on Monday at 7:00.\<close>

definition busy_state :: sched_state where
  "busy_state = initial_state\<lparr>lecturer_schedule := (\<lambda>_. {})(Some 1 := {(1, time 7 0)})\<rparr>"

text \<open>Two entries that book lecturer 7 twice in slot 5, in different rooms and groups.\<close>

definition clash_entries :: "TimetableEntry list" where
  "clash_entries =
     [DBTimetableEntry 1 (Some 7) 1 (Some 5) 1, DBTimetableEntry 2 (Some 7) 2 (Some 5) 2]"

text \<open>
  Two entries against \<open>example_db\<close>: the lab unit 1 in a room 99 that does not exist,
  and a unit 98 that does not exist in the lecture hall 2.
\<close>

definition dangling_entries :: "TimetableEntry list" where
  "dangling_entries =
     [DBTimetableEntry 1 (Some 1) 99 (Some 1) 1, DBTimetableEntry 98 (Some 1) 2 (Some 2) 1]"

section \<open>Vocabulary of the proofs\<close>

text \<open>
  \<open>slot_free\<close> is the negation of the three conflict flags of the placement loop and
  \<open>placed\<close> the state after its commit branch. \<open>entry_of\<close> relates an entry to
  the unit, room, slot and group it was built from, with the slot's key recorded in the
  three occupancy indexes; \<open>sched_inv\<close> is the invariant of the run.
\<close>

definition slot_free :: "Unit \<Rightarrow> StudentGroup \<Rightarrow> TimeSlot \<Rightarrow> Room \<Rightarrow> sched_state \<Rightarrow> bool" where
  "slot_free unit sg slot room st \<longleftrightarrow>
     (day_of_week slot, start_time slot) \<notin> lecturer_schedule st (Unit.lecturer_id unit) \<and>
     (day_of_week slot, start_time slot) \<notin> room_schedule st (Room.id room) \<and>
     (day_of_week slot, start_time slot) \<notin> student_schedule st (StudentGroup.id sg)"

definition placed :: "Unit \<Rightarrow> StudentGroup \<Rightarrow> TimeSlot \<Rightarrow> Room \<Rightarrow> sched_state \<Rightarrow> sched_state" where
  "placed unit sg slot room st =
     st\<lparr>timetable_entries := timetable_entries st @
          [DBTimetableEntry (Unit.id unit) (Unit.lecturer_id unit) (Room.id room)
             (TimeSlot.id slot) (StudentGroup.id sg)],
        lecturer_schedule := (lecturer_schedule st)
          (Unit.lecturer_id unit := insert (day_of_week slot, start_time slot)
             (lecturer_schedule st (Unit.lecturer_id unit))),
        room_schedule := (room_schedule st)
          (Room.id room := insert (day_of_week slot, start_time slot)
             (room_schedule st (Room.id room))),
        student_schedule := (student_schedule st)
          (StudentGroup.id sg := insert (day_of_week slot, start_time slot)
             (student_schedule st (StudentGroup.id sg)))\<rparr>"

definition entry_of ::
  "sched_state \<Rightarrow> TimetableEntry \<Rightarrow> Unit \<Rightarrow> Room \<Rightarrow> TimeSlot \<Rightarrow> StudentGroup \<Rightarrow> bool" where
  "entry_of st e u r s g \<longleftrightarrow>
     e = DBTimetableEntry (Unit.id u) (Unit.lecturer_id u) (Room.id r) (TimeSlot.id s)
           (StudentGroup.id g) \<and>
     room_type r = (if truthy (requires_lab u) then ''lab'' else ''normal'') \<and>
     (day_of_week s, start_time s) \<in> lecturer_schedule st (Unit.lecturer_id u) \<and>
     (day_of_week s, start_time s) \<in> room_schedule st (Room.id r) \<and>
     (day_of_week s, start_time s) \<in> student_schedule st (StudentGroup.id g)"

definition entry_ok :: "database \<Rightarrow> sched_state \<Rightarrow> TimetableEntry \<Rightarrow> bool" where
  "entry_ok db st e \<longleftrightarrow>
     (\<exists>u \<in> set (units db). \<exists>r \<in> set (rooms db). \<exists>s \<in> set (time_slots db).
      \<exists>g \<in> set (student_groups db). entry_of st e u r s g)"

definition no_double_booking :: "TimetableEntry list \<Rightarrow> bool" where
  "no_double_booking es \<longleftrightarrow>
     (\<forall>sid. distinct (map TimetableEntry.lecturer_id (filter (\<lambda>e. time_slot_id e = sid) es)) \<and>
            distinct (map room_id (filter (\<lambda>e. time_slot_id e = sid) es)) \<and>
            distinct (map student_group_id (filter (\<lambda>e. time_slot_id e = sid) es)))"

definition sched_inv :: "database \<Rightarrow> sched_state \<Rightarrow> bool" where
  "sched_inv db st \<longleftrightarrow>
     (\<forall>e \<in> set (timetable_entries st). entry_ok db st e) \<and>
     no_double_booking (timetable_entries st)"

text \<open>
  \<open>relations_resolve\<close>: every unit that has a student group has a department whose
  school exists, so that the lookups behind \<open>dept.school_id\<close> and
  \<open>school.code\<close> find a row.
\<close>

definition relations_resolve :: "database \<Rightarrow> bool" where
  "relations_resolve db \<longleftrightarrow>
     (\<forall>unit \<in> set (units db).
        find (\<lambda>g. StudentGroup.department_id g = Unit.department_id unit \<and>
                  StudentGroup.year_level g = Unit.year_level unit) (student_groups db) \<noteq> None \<longrightarrow>
        (\<exists>dept school.
           find (\<lambda>d. Some (Department.id d) = Unit.department_id unit) (departments db) = Some dept \<and>
           find (\<lambda>s. Some (School.id s) = school_id dept) (schools db) = Some school))"

section \<open>The time-slot catalog\<close>

lemma upto_1_5: "[1..5] = [1, 2, 3, 4, 5::int]"
  by (simp add: upto_rec1)

lemma flush_time_slots_fields:
  "map slot_fields (snd (flush_time_slots seq xs)) = map slot_fields xs"
  by (induction xs arbitrary: seq)
     (simp_all add: slot_fields_def split_beta split: option.splits)

lemma flush_time_slots_fresh:
  "\<forall>x \<in> set xs. TimeSlot.id x = None \<Longrightarrow>
   fst (flush_time_slots seq xs) = seq + int (length xs) \<and>
   map TimeSlot.id (snd (flush_time_slots seq xs)) =
     map (\<lambda>i. Some (seq + 1 + int i)) [0..<length xs]"
proof (induction xs arbitrary: seq)
  case Nil
  then show ?case by simp
next
  case (Cons x xs)
  then have ih: "fst (flush_time_slots (seq + 1) xs) = seq + 1 + int (length xs)"
    "map TimeSlot.id (snd (flush_time_slots (seq + 1) xs)) =
       map (\<lambda>i. Some (seq + 1 + 1 + int i)) [0..<length xs]"
    by simp_all
  have "[0..<length (x # xs)] = 0 # map Suc [0..<length xs]"
    by (simp add: upt_conv_Cons map_Suc_upt del: upt_Suc)
  with Cons.prems ih show ?case
    by (simp add: split_beta del: upt_Suc)
qed

lemma new_time_slots_fields:
  "map slot_fields new_time_slots =
     concat (map (\<lambda>day. map (\<lambda>(s, e). (day, s, e, ''spas_3h'')) spas_sessions @
                         map (\<lambda>(s, e). (day, s, e, ''shs_2h'')) shs_sessions) [1, 2, 3, 4, 5])"
  by (simp add: new_time_slots_def upto_1_5 slot_fields_def DBTimeSlot_def
        spas_sessions_def shs_sessions_def)

lemma new_time_slots_no_id: "\<forall>x \<in> set new_time_slots. TimeSlot.id x = None"
  by (simp add: new_time_slots_def upto_1_5 DBTimeSlot_def spas_sessions_def shs_sessions_def)

lemma length_new_time_slots: "length new_time_slots = 50"
  by (simp add: new_time_slots_def upto_1_5 spas_sessions_def shs_sessions_def)

lemma generate_time_slots_fields:
  "map slot_fields (snd (generate_time_slots db)) = map slot_fields new_time_slots"
  by (simp add: generate_time_slots_def add_all_time_slots_def split_beta
        flush_time_slots_fields)

lemma filter_fields:
  "map (\<lambda>s. (start_time s, end_time s))
     (filter (\<lambda>s. day_of_week s = day \<and> session_type s = t') xs) =
   map (\<lambda>(d, s, e, t). (s, e))
     (filter (\<lambda>(d, s, e, t). d = day \<and> t = t') (map slot_fields xs))"
  by (induction xs) (auto simp: slot_fields_def)

lemma sessions_of_day:
  assumes "day \<in> {1..5}"
  shows "map (\<lambda>(d, s, e, t). (s, e))
           (filter (\<lambda>(d, s, e, t). d = day \<and> t = ''spas_3h'')
              (map slot_fields new_time_slots)) = spas_sessions"
    and "map (\<lambda>(d, s, e, t). (s, e))
           (filter (\<lambda>(d, s, e, t). d = day \<and> t = ''shs_2h'')
              (map slot_fields new_time_slots)) = shs_sessions"
proof -
  from assms have days: "day = 1 \<or> day = 2 \<or> day = 3 \<or> day = 4 \<or> day = 5"
    by auto
  then show "map (\<lambda>(d, s, e, t). (s, e))
           (filter (\<lambda>(d, s, e, t). d = day \<and> t = ''spas_3h'')
              (map slot_fields new_time_slots)) = spas_sessions"
    by (elim disjE) (simp_all add: new_time_slots_fields spas_sessions_def shs_sessions_def)
  from days show "map (\<lambda>(d, s, e, t). (s, e))
           (filter (\<lambda>(d, s, e, t). d = day \<and> t = ''shs_2h'')
              (map slot_fields new_time_slots)) = shs_sessions"
    by (elim disjE) (simp_all add: new_time_slots_fields spas_sessions_def shs_sessions_def)
qed

lemma slots_of_day:
  assumes "day \<in> {1..5}"
  shows "map (\<lambda>s. (start_time s, end_time s))
           (filter (\<lambda>s. day_of_week s = day \<and> session_type s = ''spas_3h'')
              (snd (generate_time_slots db))) = spas_sessions"
    and "map (\<lambda>s. (start_time s, end_time s))
           (filter (\<lambda>s. day_of_week s = day \<and> session_type s = ''shs_2h'')
              (snd (generate_time_slots db))) = shs_sessions"
  using sessions_of_day [OF assms]
  by (simp_all only: filter_fields generate_time_slots_fields)

lemma slot_days_and_types:
  assumes "s \<in> set (snd (generate_time_slots db))"
  shows "day_of_week s \<in> {1..5} \<and> session_type s \<in> {''spas_3h'', ''shs_2h''}"
proof -
  from assms have "slot_fields s \<in> set (map slot_fields (snd (generate_time_slots db)))"
    by simp
  then have "slot_fields s \<in> set (map slot_fields new_time_slots)"
    by (simp only: generate_time_slots_fields)
  then show ?thesis
    unfolding new_time_slots_fields
    by (auto simp: slot_fields_def spas_sessions_def shs_sessions_def)
qed

text \<open>
  C5 (amended). The catalog returned by \<open>generate_time_slots\<close> has exactly 50 slots.
  For each day 1..5 its long-session (\<open>spas_3h\<close>) slots are the 4 fixed sessions and its
  short-session (\<open>shs_2h\<close>) slots are the 6 fixed sessions, in the order of the tables;
  every slot lies on a day 1..5 and has one of the two session types. The days, times and
  session types of the catalog are the same whatever the store holds, so a second
  invocation produces the same catalog up to the ids the store assigns.
\<close>

theorem generate_time_slots_catalog:
  "length (snd (generate_time_slots db)) = 50 \<and>
   (\<forall>day \<in> {1..5}.
      map (\<lambda>s. (start_time s, end_time s))
        (filter (\<lambda>s. day_of_week s = day \<and> session_type s = ''spas_3h'')
           (snd (generate_time_slots db))) = spas_sessions \<and>
      map (\<lambda>s. (start_time s, end_time s))
        (filter (\<lambda>s. day_of_week s = day \<and> session_type s = ''shs_2h'')
           (snd (generate_time_slots db))) = shs_sessions) \<and>
   (\<forall>s \<in> set (snd (generate_time_slots db)).
      day_of_week s \<in> {1..5} \<and> session_type s \<in> {''spas_3h'', ''shs_2h''}) \<and>
   length spas_sessions = 4 \<and> length shs_sessions = 6 \<and>
   map slot_fields (snd (generate_time_slots db)) =
     map slot_fields (snd (generate_time_slots db'))"
proof -
  have "length (map slot_fields (snd (generate_time_slots db))) = 50"
    by (simp only: generate_time_slots_fields length_map length_new_time_slots)
  then have "length (snd (generate_time_slots db)) = 50"
    by simp
  moreover have "map slot_fields (snd (generate_time_slots db)) =
      map slot_fields (snd (generate_time_slots db'))"
    by (simp only: generate_time_slots_fields)
  moreover have "length spas_sessions = 4" "length shs_sessions = 6"
    by (simp_all add: spas_sessions_def shs_sessions_def)
  ultimately show ?thesis
    using slots_of_day [of _ db] slot_days_and_types [of _ db] by blast
qed

text \<open>Wednesday on the empty store, and a second invocation on the store the first one left.\<close>

theorem generate_time_slots_catalog_witness:
  "(3::int) \<in> {1..5} \<and>
   length (snd (generate_time_slots empty_db)) = 50 \<and>
   map (\<lambda>s. (start_time s, end_time s))
     (filter (\<lambda>s. day_of_week s = 3 \<and> session_type s = ''spas_3h'')
        (snd (generate_time_slots empty_db))) =
     [(time 7 0, time 10 0), (time 10 30, time 13 30),
      (time 14 0, time 17 0), (time 16 0, time 19 0)] \<and>
   map slot_fields (snd (generate_time_slots empty_db)) =
     map slot_fields (snd (generate_time_slots (fst (generate_time_slots empty_db))))"
proof -
  have day: "(3::int) \<in> {1..5}" by simp
  from generate_time_slots_catalog [of empty_db "fst (generate_time_slots empty_db)"] day
  show ?thesis
    unfolding spas_sessions_def by blast
qed

text \<open>
  C5 as stated has "5 per day for each of the long/short profiles"; on Monday the
  catalog has 4 long-session slots and 6 short-session slots.
\<close>

theorem generate_time_slots_five_per_day_counterexample:
  "length (filter (\<lambda>s. day_of_week s = 1 \<and> session_type s = ''spas_3h'')
             (snd (generate_time_slots empty_db))) = 4 \<and>
   length (filter (\<lambda>s. day_of_week s = 1 \<and> session_type s = ''shs_2h'')
             (snd (generate_time_slots empty_db))) = 6"
proof -
  have one: "(1::int) \<in> {1..5}" by simp
  have "length (map (\<lambda>s. (start_time s, end_time s))
          (filter (\<lambda>s. day_of_week s = 1 \<and> session_type s = ''spas_3h'')
             (snd (generate_time_slots empty_db)))) = 4"
    by (simp only: slots_of_day [OF one]) (simp add: spas_sessions_def)
  moreover have "length (map (\<lambda>s. (start_time s, end_time s))
          (filter (\<lambda>s. day_of_week s = 1 \<and> session_type s = ''shs_2h'')
             (snd (generate_time_slots empty_db)))) = 6"
    by (simp only: slots_of_day [OF one]) (simp add: shs_sessions_def)
  ultimately show ?thesis by simp
qed

lemma length_generate_time_slots: "length (snd (generate_time_slots db)) = 50"
proof -
  have "length (map slot_fields (snd (generate_time_slots db))) = 50"
    by (simp only: generate_time_slots_fields length_map length_new_time_slots)
  then show ?thesis by simp
qed

text \<open>
  C6 (amended). \<open>generate_time_slots\<close> saves the catalog it returns: after the call the
  store's time-slot table is the table before the call followed by the 50 returned slots,
  the table's id sequence has advanced by 50, and every other table is unchanged. The
  returned slots carry the 50 consecutive ids the store assigned.
\<close>

theorem generate_time_slots_persists:
  "fst (generate_time_slots db) =
     db\<lparr>time_slots := time_slots db @ snd (generate_time_slots db),
        time_slots_id_seq := time_slots_id_seq db + 50\<rparr> \<and>
   map TimeSlot.id (snd (generate_time_slots db)) =
     map (\<lambda>i. Some (time_slots_id_seq db + 1 + int i)) [0..<50]"
  using flush_time_slots_fresh [OF new_time_slots_no_id, of "time_slots_id_seq db"]
  by (simp add: generate_time_slots_def add_all_time_slots_def split_beta length_new_time_slots
      del: upt_Suc)

text \<open>
  C6 as stated has the store unchanged by the call; on the empty store the time-slot table
  holds 50 rows after it.
\<close>

theorem generate_time_slots_store_counterexample:
  "time_slots empty_db = [] \<and>
   length (time_slots (fst (generate_time_slots empty_db))) = 50 \<and>
   fst (generate_time_slots empty_db) \<noteq> empty_db"
proof -
  have len: "length (snd (generate_time_slots empty_db)) = 50"
    by (rule length_generate_time_slots)
  have empty: "time_slots empty_db = []"
    by (simp add: empty_db_def)
  have "time_slots (fst (generate_time_slots empty_db)) = snd (generate_time_slots empty_db)"
    by (simp add: generate_time_slots_def add_all_time_slots_def split_beta empty)
  with len empty have "length (time_slots (fst (generate_time_slots empty_db))) = 50"
    by simp
  with empty show ?thesis by auto
qed

section \<open>The constraint validator\<close>

lemma dd_append_keys:
  "map fst (dd_append k v m) = (if k \<in> fst ` set m then map fst m else map fst m @ [k])"
  by (induction m) force+

lemma dd_append_map_of:
  "map_of (dd_append k v m) k' =
     (if k' = k then Some ((case map_of m k of None \<Rightarrow> [] | Some vs \<Rightarrow> vs) @ [v])
      else map_of m k')"
  by (induction m) auto

lemma fold_dd_append:
  assumes "distinct (map fst m)"
    and "\<And>k. map_of m k = (if filter (\<lambda>e. f e = k) pre = [] then None
                            else Some (filter (\<lambda>e. f e = k) pre))"
  shows "distinct (map fst (fold (\<lambda>e. dd_append (f e) e) es m)) \<and>
         (\<forall>k. map_of (fold (\<lambda>e. dd_append (f e) e) es m) k =
           (if filter (\<lambda>e. f e = k) (pre @ es) = [] then None
            else Some (filter (\<lambda>e. f e = k) (pre @ es))))"
  using assms
proof (induction es arbitrary: m pre)
  case Nil
  then show ?case by simp
next
  case (Cons e es)
  have d: "distinct (map fst (dd_append (f e) e m))"
    using Cons.prems(1) by (simp add: dd_append_keys)
  have m: "map_of (dd_append (f e) e m) k =
      (if filter (\<lambda>x. f x = k) (pre @ [e]) = [] then None
       else Some (filter (\<lambda>x. f x = k) (pre @ [e])))" for k
    by (simp add: dd_append_map_of Cons.prems(2))
  from Cons.IH [OF d m] show ?case by simp
qed

lemma slot_bookings_iff:
  "(sid, es') \<in> set (slot_bookings es) \<longleftrightarrow>
     es' = filter (\<lambda>e. time_slot_id e = sid) es \<and> es' \<noteq> []"
proof -
  have "distinct (map fst (slot_bookings es)) \<and>
        (\<forall>k. map_of (slot_bookings es) k =
           (if filter (\<lambda>e. time_slot_id e = k) ([] @ es) = [] then None
            else Some (filter (\<lambda>e. time_slot_id e = k) ([] @ es))))"
    unfolding slot_bookings_def by (rule fold_dd_append) simp_all
  then have d: "distinct (map fst (slot_bookings es))"
    and m: "map_of (slot_bookings es) sid =
           (if filter (\<lambda>e. time_slot_id e = sid) es = [] then None
            else Some (filter (\<lambda>e. time_slot_id e = sid) es))"
    by simp_all
  have "(sid, es') \<in> set (slot_bookings es) \<longleftrightarrow> map_of (slot_bookings es) sid = Some es'"
    using d by simp
  with m show ?thesis by auto
qed

lemma len_set_distinct: "length (remdups xs) \<noteq> length xs \<longleftrightarrow> \<not> distinct xs"
  by (simp add: length_remdups_eq)

lemma double_bookings_empty_iff:
  "double_bookings (sid, es) = [] \<longleftrightarrow>
     distinct (map TimetableEntry.lecturer_id es) \<and> distinct (map room_id es) \<and>
     distinct (map student_group_id es)"
  by (simp add: double_bookings_def Let_def len_set_distinct)

lemma no_double_bookings_iff:
  "concat (map double_bookings (slot_bookings es)) = [] \<longleftrightarrow>
     (\<forall>sid. distinct (map TimetableEntry.lecturer_id (filter (\<lambda>e. time_slot_id e = sid) es)) \<and>
            distinct (map room_id (filter (\<lambda>e. time_slot_id e = sid) es)) \<and>
            distinct (map student_group_id (filter (\<lambda>e. time_slot_id e = sid) es)))"
    (is "?L \<longleftrightarrow> ?R")
proof
  assume l: ?L
  show ?R
  proof
    fix sid
    let ?es = "filter (\<lambda>e. time_slot_id e = sid) es"
    show "distinct (map TimetableEntry.lecturer_id ?es) \<and> distinct (map room_id ?es) \<and>
          distinct (map student_group_id ?es)"
    proof (cases "?es = []")
      case True
      then show ?thesis by simp
    next
      case False
      then have "(sid, ?es) \<in> set (slot_bookings es)"
        by (simp add: slot_bookings_iff)
      with l have "double_bookings (sid, ?es) = []"
        by auto
      then show ?thesis
        by (simp only: double_bookings_empty_iff)
    qed
  qed
next
  assume r: ?R
  have "double_bookings b = []" if "b \<in> set (slot_bookings es)" for b
  proof -
    obtain sid es' where b: "b = (sid, es')" by (cases b)
    with that have "es' = filter (\<lambda>e. time_slot_id e = sid) es"
      by (simp add: slot_bookings_iff)
    with r b show ?thesis
      by (simp add: double_bookings_empty_iff)
  qed
  then show ?L by simp
qed

lemma two_positions:
  assumes "i < j" "j < length xs"
  obtains as bs cs where "xs = as @ xs ! i # bs @ xs ! j # cs"
proof -
  let ?ys = "take j xs"
  have xs: "xs = ?ys @ xs ! j # drop (Suc j) xs"
    using assms(2) by (rule id_take_nth_drop)
  have "i < length ?ys" using assms by simp
  then have "?ys = take i ?ys @ ?ys ! i # drop (Suc i) ?ys"
    by (rule id_take_nth_drop)
  moreover have "?ys ! i = xs ! i" using assms by simp
  ultimately have "?ys = take i ?ys @ xs ! i # drop (Suc i) ?ys" by simp
  with xs have "xs = take i ?ys @ xs ! i # drop (Suc i) ?ys @ xs ! j # drop (Suc j) xs"
    by (metis append.assoc append_Cons)
  then show thesis by (rule that)
qed

lemma repeated_not_distinct:
  assumes "i < j" "j < length xs" "P (xs ! i)" "P (xs ! j)" "g (xs ! i) = g (xs ! j)"
  shows "\<not> distinct (map g (filter P xs))"
proof -
  obtain as bs cs where "xs = as @ xs ! i # bs @ xs ! j # cs"
    using assms(1,2) by (rule two_positions)
  then have "filter P xs = filter P (as @ xs ! i # bs @ xs ! j # cs)" by simp
  also have "\<dots> = filter P as @ xs ! i # filter P bs @ xs ! j # filter P cs"
    using assms(3,4) by simp
  finally show ?thesis using assms(5) by simp
qed

lemma lecturer_message:
  assumes "i < j" "j < length es"
    and "time_slot_id (es ! i) = time_slot_id (es ! j)"
    and "TimetableEntry.lecturer_id (es ! i) = TimetableEntry.lecturer_id (es ! j)"
  shows "(''Lecturer double-booked in time slot '' @ str_opt (time_slot_id (es ! i)))
           \<in> set (concat (map double_bookings (slot_bookings es)))"
proof -
  let ?sid = "time_slot_id (es ! i)"
  let ?es = "filter (\<lambda>e. time_slot_id e = ?sid) es"
  have nd: "\<not> distinct (map TimetableEntry.lecturer_id ?es)"
    using assms by (intro repeated_not_distinct [of i j]) simp_all
  then have "?es \<noteq> []" by auto
  then have b: "(?sid, ?es) \<in> set (slot_bookings es)"
    by (simp add: slot_bookings_iff)
  have "(''Lecturer double-booked in time slot '' @ str_opt ?sid)
          \<in> set (double_bookings (?sid, ?es))"
    using nd by (simp add: double_bookings_def Let_def len_set_distinct)
  with b show ?thesis by (auto simp del: append.simps)
qed

text \<open>
  C4 (amended). \<open>is_valid\<close> is true iff the conflict list is empty. Whenever two
  entries of the list share a time-slot id and a lecturer id, \<open>validate_constraints\<close>
  returns \<open>is_valid = False\<close> and the conflicts contain the message
  "Lecturer double-booked in time slot" followed by the slot id: the message names the kind
  of resource and the slot, not the lecturer.
\<close>

theorem validate_reports_lecturer_double_booking:
  "(is_valid (validate_constraints db es) \<longleftrightarrow> conflicts (validate_constraints db es) = []) \<and>
   (\<forall>i j. i < j \<and> j < length es \<and> time_slot_id (es ! i) = time_slot_id (es ! j) \<and>
          TimetableEntry.lecturer_id (es ! i) = TimetableEntry.lecturer_id (es ! j) \<longrightarrow>
      \<not> is_valid (validate_constraints db es) \<and>
      (''Lecturer double-booked in time slot '' @ str_opt (time_slot_id (es ! i)))
         \<in> set (conflicts (validate_constraints db es)))"
proof -
  have valid: "is_valid (validate_constraints db es) \<longleftrightarrow>
      conflicts (validate_constraints db es) = []"
    by (simp add: validate_constraints_def Let_def)
  have msg: "(''Lecturer double-booked in time slot '' @ str_opt (time_slot_id (es ! i)))
         \<in> set (conflicts (validate_constraints db es))"
    if "i < j" "j < length es" "time_slot_id (es ! i) = time_slot_id (es ! j)"
       "TimetableEntry.lecturer_id (es ! i) = TimetableEntry.lecturer_id (es ! j)" for i j
    using lecturer_message [OF that]
    by (simp add: validate_constraints_def Let_def del: append.simps set_concat)
  have "\<not> is_valid (validate_constraints db es)"
    if "i < j" "j < length es" "time_slot_id (es ! i) = time_slot_id (es ! j)"
       "TimetableEntry.lecturer_id (es ! i) = TimetableEntry.lecturer_id (es ! j)" for i j
    using msg [OF that] valid by auto
  with valid msg show ?thesis by blast
qed

lemma validate_clash_entries:
  "validate_constraints empty_db clash_entries =
     \<lparr>is_valid = False, conflicts = [''Lecturer double-booked in time slot 5''], warnings = []\<rparr>"
  by (simp add: validate_constraints_def slot_bookings_def clash_entries_def DBTimetableEntry_def
      double_bookings_def lab_check_def empty_db_def str_opt_def str_int_def)

text \<open>Lecturer 7 booked twice in slot 5.\<close>

theorem validate_reports_lecturer_double_booking_witness:
  "(0::nat) < 1 \<and> 1 < length clash_entries \<and>
   time_slot_id (clash_entries ! 0) = time_slot_id (clash_entries ! 1) \<and>
   TimetableEntry.lecturer_id (clash_entries ! 0) = TimetableEntry.lecturer_id (clash_entries ! 1) \<and>
   \<not> is_valid (validate_constraints empty_db clash_entries) \<and>
   ''Lecturer double-booked in time slot 5'' \<in> set (conflicts (validate_constraints empty_db clash_entries))"
proof -
  have h: "(0::nat) < 1 \<and> 1 < length clash_entries \<and>
   time_slot_id (clash_entries ! 0) = time_slot_id (clash_entries ! 1) \<and>
   TimetableEntry.lecturer_id (clash_entries ! 0) = TimetableEntry.lecturer_id (clash_entries ! 1)"
    by (simp add: clash_entries_def DBTimetableEntry_def)
  have s: "str_opt (time_slot_id (clash_entries ! 0)) = ''5''"
    by (simp add: clash_entries_def DBTimetableEntry_def str_opt_def str_int_def)
  from validate_reports_lecturer_double_booking [of empty_db clash_entries] h
  have "\<not> is_valid (validate_constraints empty_db clash_entries) \<and>
      (''Lecturer double-booked in time slot '' @ str_opt (time_slot_id (clash_entries ! 0)))
         \<in> set (conflicts (validate_constraints empty_db clash_entries))"
    by blast
  with h s show ?thesis by simp
qed

text \<open>
  C4 as stated has a conflict message mentioning the lecturer. For lecturer 7 booked twice
  in slot 5 the only conflict is "Lecturer double-booked in time slot 5", in which the
  lecturer's id does not occur.
\<close>

theorem validate_names_no_lecturer_counterexample:
  "time_slot_id (clash_entries ! 0) = time_slot_id (clash_entries ! 1) \<and>
   TimetableEntry.lecturer_id (clash_entries ! 0) = Some 7 \<and>
   TimetableEntry.lecturer_id (clash_entries ! 1) = Some 7 \<and>
   str_opt (Some 7) = ''7'' \<and>
   conflicts (validate_constraints empty_db clash_entries) =
     [''Lecturer double-booked in time slot 5''] \<and>
   \<not> sublist ''7'' ''Lecturer double-booked in time slot 5''"
proof -
  have "\<not> sublist ''7'' ''Lecturer double-booked in time slot 5''"
    by code_simp
  moreover have "str_opt (Some 7) = ''7''"
    by (simp add: str_opt_def str_int_def)
  ultimately show ?thesis
    by (simp add: validate_clash_entries) (simp add: clash_entries_def DBTimetableEntry_def)
qed

text \<open>
  C10. The lab check of \<open>validate_constraints\<close> yields nothing for an entry whose
  \<open>unit_id\<close> or \<open>room_id\<close> resolves to no row of the store. An entry list in
  which every entry is dangling in this sense, and in which no slot has a lecturer, a room
  or a student group twice, validates with \<open>is_valid = True\<close>, no conflict and no
  warning.
\<close>

theorem validate_skips_dangling:
  assumes "\<forall>e \<in> set es. find (\<lambda>u. Some (Unit.id u) = unit_id e) (units db) = None \<or>
                         find (\<lambda>r. Some (Room.id r) = room_id e) (rooms db) = None"
    and "\<forall>sid. distinct (map TimetableEntry.lecturer_id (filter (\<lambda>e. time_slot_id e = sid) es)) \<and>
              distinct (map room_id (filter (\<lambda>e. time_slot_id e = sid) es)) \<and>
              distinct (map student_group_id (filter (\<lambda>e. time_slot_id e = sid) es))"
  shows "(\<forall>e \<in> set es. lab_check db e = []) \<and>
         validate_constraints db es = \<lparr>is_valid = True, conflicts = [], warnings = []\<rparr>"
proof -
  have lab: "\<forall>e \<in> set es. lab_check db e = []"
    using assms(1) by (auto simp: lab_check_def split: option.splits)
  have "concat (map double_bookings (slot_bookings es)) = []"
    using assms(2) by (rule no_double_bookings_iff [THEN iffD2])
  moreover have "concat (map (lab_check db) es) = []"
    using lab by simp
  ultimately have "validate_constraints db es = \<lparr>is_valid = True, conflicts = [], warnings = []\<rparr>"
    by (simp add: validate_constraints_def)
  with lab show ?thesis by simp
qed

text \<open>
  A lab unit booked into a room that does not exist, and an unknown unit booked into the
  lecture hall: both pass the lab check.
\<close>

theorem validate_skips_dangling_witness:
  "find (\<lambda>u. Some (Unit.id u) = unit_id (dangling_entries ! 0)) (units example_db) \<noteq> None \<and>
   find (\<lambda>r. Some (Room.id r) = room_id (dangling_entries ! 0)) (rooms example_db) = None \<and>
   find (\<lambda>u. Some (Unit.id u) = unit_id (dangling_entries ! 1)) (units example_db) = None \<and>
   validate_constraints example_db dangling_entries = \<lparr>is_valid = True, conflicts = [], warnings = []\<rparr>"
proof -
  have d: "\<forall>e \<in> set dangling_entries.
      find (\<lambda>u. Some (Unit.id u) = unit_id e) (units example_db) = None \<or>
      find (\<lambda>r. Some (Room.id r) = room_id e) (rooms example_db) = None"
    by (simp add: dangling_entries_def DBTimetableEntry_def example_db_def)
  have n: "\<forall>sid. distinct (map TimetableEntry.lecturer_id (filter (\<lambda>e. time_slot_id e = sid) dangling_entries)) \<and>
              distinct (map room_id (filter (\<lambda>e. time_slot_id e = sid) dangling_entries)) \<and>
              distinct (map student_group_id (filter (\<lambda>e. time_slot_id e = sid) dangling_entries))"
    by (simp add: dangling_entries_def DBTimetableEntry_def)
  from validate_skips_dangling [OF d n] show ?thesis
    by (simp add: dangling_entries_def DBTimetableEntry_def example_db_def)
qed

section \<open>The placement loop\<close>

lemma placement_loop_stop:
  "scheduled \<or> \<not> attempts < maxa \<Longrightarrow>
   placement_loop rnd unit sg ss rs maxa scheduled attempts st = Inr (scheduled, attempts, st)"
  by (auto simp: placement_loop.simps)

lemma placement_loop_step:
  assumes "\<not> scheduled" "attempts < maxa"
    and "choice (rnd (draws st)) ss = Inr slot"
    and "choice (rnd (draws st + 1)) rs = Inr room"
  shows "placement_loop rnd unit sg ss rs maxa scheduled attempts st =
     (if slot_free unit sg slot room st then
        (case day_names (day_of_week slot) of
           None \<Rightarrow> Inl KeyError
         | Some _ \<Rightarrow> Inr (True, attempts + 1, placed unit sg slot room (st\<lparr>draws := draws st + 2\<rparr>)))
      else placement_loop rnd unit sg ss rs maxa False (attempts + 1) (st\<lparr>draws := draws st + 2\<rparr>))"
  using assms
  by (subst placement_loop.simps)
     (simp add: Let_def slot_free_def placed_def placement_loop_stop split: option.splits)

lemma placement_loop_raise:
  assumes "\<not> scheduled" "attempts < maxa"
    and "choice (rnd (draws st)) ss = Inl e \<or>
         (\<exists>slot. choice (rnd (draws st)) ss = Inr slot) \<and> choice (rnd (draws st + 1)) rs = Inl e"
  shows "placement_loop rnd unit sg ss rs maxa scheduled attempts st = Inl e"
  using assms
  by (subst placement_loop.simps) auto

lemma choice_mem: "choice r xs = Inr x \<Longrightarrow> x \<in> set xs"
  by (auto simp: choice_def split: if_splits)

lemma choice_Inl: "choice r xs = Inl e \<Longrightarrow> e = IndexError \<and> xs = []"
  by (auto simp: choice_def split: if_splits)

lemma placement_loop_shape:
  assumes "placement_loop rnd unit sg ss rs maxa scheduled attempts st = Inr (sch', att', st')"
  shows "attempts \<le> att' \<and> att' \<le> max attempts maxa \<and>
     ((sch' = scheduled \<and> (\<not> sch' \<longrightarrow> maxa \<le> att') \<and> (\<exists>d. st' = st\<lparr>draws := d\<rparr>)) \<or>
      (\<not> scheduled \<and> sch' \<and>
       (\<exists>slot \<in> set ss. \<exists>room \<in> set rs. \<exists>d.
          slot_free unit sg slot room st \<and> day_of_week slot \<in> dom day_names \<and>
          st' = placed unit sg slot room (st\<lparr>draws := d\<rparr>))))"
  using assms
proof (induction rnd unit sg ss rs maxa scheduled attempts st rule: placement_loop.induct)
  case (1 rnd unit sg ss rs maxa scheduled attempts st)
  show ?case
  proof (cases "\<not> scheduled \<and> attempts < maxa")
    case False
    then have "placement_loop rnd unit sg ss rs maxa scheduled attempts st = Inr (scheduled, attempts, st)"
      by (intro placement_loop_stop) auto
    with "1.prems" have eqs: "sch' = scheduled" "att' = attempts" "st' = st"
      by simp_all
    have "\<exists>d. st = st\<lparr>draws := d\<rparr>"
      by (rule exI [of _ "draws st"]) simp
    with eqs False have "sch' = scheduled \<and> (\<not> sch' \<longrightarrow> maxa \<le> att') \<and> (\<exists>d. st' = st\<lparr>draws := d\<rparr>)"
      by auto
    moreover from eqs have "attempts \<le> att' \<and> att' \<le> max attempts maxa"
      by simp
    ultimately show ?thesis by blast
  next
    case True
    from True "1.prems" obtain slot where slot: "choice (rnd (draws st)) ss = Inr slot"
      by (cases "choice (rnd (draws st)) ss") (auto simp: placement_loop_raise)
    from True "1.prems" slot obtain room where room: "choice (rnd (draws st + 1)) rs = Inr room"
      by (cases "choice (rnd (draws st + 1)) rs") (auto simp: placement_loop_raise)
    let ?st1 = "st\<lparr>draws := draws st + 2\<rparr>"
    from True slot room have step: "placement_loop rnd unit sg ss rs maxa scheduled attempts st =
     (if slot_free unit sg slot room st then
        (case day_names (day_of_week slot) of
           None \<Rightarrow> Inl KeyError
         | Some _ \<Rightarrow> Inr (True, attempts + 1, placed unit sg slot room ?st1))
      else placement_loop rnd unit sg ss rs maxa False (attempts + 1) ?st1)"
      by (intro placement_loop_step) auto
    show ?thesis
    proof (cases "slot_free unit sg slot room st")
      case conflict: False
      with step "1.prems"
      have rec: "placement_loop rnd unit sg ss rs maxa False (attempts + 1) ?st1 = Inr (sch', att', st')"
        by simp
      from conflict have c: "\<not> \<not> ((day_of_week slot, start_time slot) \<in> lecturer_schedule ?st1 (Unit.lecturer_id unit) \<or>
                  (day_of_week slot, start_time slot) \<in> room_schedule ?st1 (Room.id room) \<or>
                  (day_of_week slot, start_time slot) \<in> student_schedule ?st1 (StudentGroup.id sg))"
        by (simp add: slot_free_def)
      have ih: "attempts + 1 \<le> att' \<and> att' \<le> max (attempts + 1) maxa \<and>
     ((sch' = False \<and> (\<not> sch' \<longrightarrow> maxa \<le> att') \<and> (\<exists>d. st' = ?st1\<lparr>draws := d\<rparr>)) \<or>
      (\<not> False \<and> sch' \<and>
       (\<exists>slot \<in> set ss. \<exists>room \<in> set rs. \<exists>d.
          slot_free unit sg slot room ?st1 \<and> day_of_week slot \<in> dom day_names \<and>
          st' = placed unit sg slot room (?st1\<lparr>draws := d\<rparr>))))"
        by (rule "1.IH"(2) [OF True slot room refl refl refl refl refl c rec])
      have sf: "slot_free unit sg s r ?st1 = slot_free unit sg s r st" for s r
        by (simp add: slot_free_def)
      have upd: "?st1\<lparr>draws := d\<rparr> = st\<lparr>draws := d\<rparr>" for d
        by simp
      from ih True have "attempts \<le> att' \<and> att' \<le> max attempts maxa"
        by (auto simp: max_def)
      moreover from ih True
      have "(sch' = scheduled \<and> (\<not> sch' \<longrightarrow> maxa \<le> att') \<and> (\<exists>d. st' = st\<lparr>draws := d\<rparr>)) \<or>
        (\<not> scheduled \<and> sch' \<and>
         (\<exists>slot \<in> set ss. \<exists>room \<in> set rs. \<exists>d.
            slot_free unit sg slot room st \<and> day_of_week slot \<in> dom day_names \<and>
            st' = placed unit sg slot room (st\<lparr>draws := d\<rparr>)))"
        unfolding sf upd by blast
      ultimately show ?thesis by blast
    next
      case free: True
      with step "1.prems" obtain nm where nm: "day_names (day_of_week slot) = Some nm"
        by (auto split: option.splits)
      with free step "1.prems"
      have "sch' = True" "att' = attempts + 1" "st' = placed unit sg slot room ?st1"
        by simp_all
      moreover have "day_of_week slot \<in> dom day_names"
        using nm by auto
      ultimately have "\<not> scheduled \<and> sch' \<and>
         (\<exists>slot \<in> set ss. \<exists>room \<in> set rs. \<exists>d.
            slot_free unit sg slot room st \<and> day_of_week slot \<in> dom day_names \<and>
            st' = placed unit sg slot room (st\<lparr>draws := d\<rparr>))"
        using True free choice_mem [OF slot] choice_mem [OF room] by blast
      moreover from \<open>att' = attempts + 1\<close> True have "attempts \<le> att' \<and> att' \<le> max attempts maxa"
        by (auto simp: max_def)
      ultimately show ?thesis by blast
    qed
  qed
qed

lemma placement_loop_errors:
  assumes "placement_loop rnd unit sg ss rs maxa scheduled attempts st = Inl e"
  shows "(e = IndexError \<and> (ss = [] \<or> rs = [])) \<or>
         (e = KeyError \<and> (\<exists>slot \<in> set ss. day_names (day_of_week slot) = None))"
  using assms
proof (induction rnd unit sg ss rs maxa scheduled attempts st rule: placement_loop.induct)
  case (1 rnd unit sg ss rs maxa scheduled attempts st)
  show ?case
  proof (cases "\<not> scheduled \<and> attempts < maxa")
    case False
    then have "placement_loop rnd unit sg ss rs maxa scheduled attempts st = Inr (scheduled, attempts, st)"
      by (intro placement_loop_stop) auto
    with "1.prems" show ?thesis by simp
  next
    case True
    show ?thesis
    proof (cases "choice (rnd (draws st)) ss")
      case (Inl e1)
      with True "1.prems" have "e = e1" by (simp add: placement_loop_raise)
      with choice_Inl [OF Inl] show ?thesis by simp
    next
      case slot: (Inr slot)
      show ?thesis
      proof (cases "choice (rnd (draws st + 1)) rs")
        case (Inl e1)
        with True slot "1.prems" have "e = e1" by (simp add: placement_loop_raise)
        with choice_Inl [OF Inl] show ?thesis by simp
      next
        case room: (Inr room)
        let ?st1 = "st\<lparr>draws := draws st + 2\<rparr>"
        from True slot room have step: "placement_loop rnd unit sg ss rs maxa scheduled attempts st =
         (if slot_free unit sg slot room st then
            (case day_names (day_of_week slot) of
               None \<Rightarrow> Inl KeyError
             | Some _ \<Rightarrow> Inr (True, attempts + 1, placed unit sg slot room ?st1))
          else placement_loop rnd unit sg ss rs maxa False (attempts + 1) ?st1)"
          by (intro placement_loop_step) auto
        show ?thesis
        proof (cases "slot_free unit sg slot room st")
          case conflict: False
          with step "1.prems"
          have rec: "placement_loop rnd unit sg ss rs maxa False (attempts + 1) ?st1 = Inl e"
            by simp
          from conflict have c: "\<not> \<not> ((day_of_week slot, start_time slot) \<in> lecturer_schedule ?st1 (Unit.lecturer_id unit) \<or>
                  (day_of_week slot, start_time slot) \<in> room_schedule ?st1 (Room.id room) \<or>
                  (day_of_week slot, start_time slot) \<in> student_schedule ?st1 (StudentGroup.id sg))"
            by (simp add: slot_free_def)
          show ?thesis
            by (rule "1.IH"(2) [OF True slot room refl refl refl refl refl c rec])
        next
          case free: True
          with step "1.prems" have "day_names (day_of_week slot) = None \<and> e = KeyError"
            by (auto split: option.splits)
          with choice_mem [OF slot] show ?thesis by auto
        qed
      qed
    qed
  qed
qed

lemma choice_single: "choice r [x] = Inr x"
  by (simp add: choice_def)

text \<open>
  C9. Started as \<open>generate_schedule\<close> starts it, with
  \<open>max_attempts = min(100, |slots| * |rooms|)\<close>, the placement loop terminates. It
  either raises KeyError (on a chosen slot whose day has no name) or ends after at most
  \<open>max_attempts\<close> trials; the entries placed before are a prefix of the entries
  after; if the unit was scheduled exactly one entry was added, and if not, all
  \<open>max_attempts\<close> trials were made and nothing but the count of random draws has
  changed. In particular, with one candidate slot and one candidate room whose slot key is
  occupied for the lecturer, the room or the student group, the loop ends unscheduled
  after exactly 1 trial.
\<close>

theorem placement_loop_bounded:
  "(case placement_loop rnd unit sg ss rs (min 100 (length ss * length rs)) False 0 st of
      Inl e \<Rightarrow> e = KeyError \<and> (\<exists>slot \<in> set ss. day_names (day_of_week slot) = None)
    | Inr (scheduled, attempts, st') \<Rightarrow>
        attempts \<le> min 100 (length ss * length rs) \<and>
        prefix (timetable_entries st) (timetable_entries st') \<and>
        (if scheduled
         then length (timetable_entries st') = length (timetable_entries st) + 1
         else attempts = min 100 (length ss * length rs) \<and> (\<exists>d. st' = st\<lparr>draws := d\<rparr>))) \<and>
   (ss = [slot] \<and> rs = [room] \<and>
    ((day_of_week slot, start_time slot) \<in> lecturer_schedule st (Unit.lecturer_id unit) \<or>
     (day_of_week slot, start_time slot) \<in> room_schedule st (Room.id room) \<or>
     (day_of_week slot, start_time slot) \<in> student_schedule st (StudentGroup.id sg)) \<longrightarrow>
    placement_loop rnd unit sg ss rs (min 100 (length ss * length rs)) False 0 st =
      Inr (False, 1, st\<lparr>draws := draws st + 2\<rparr>))"
proof (rule conjI)
  let ?n = "min 100 (length ss * length rs)"
  show "case placement_loop rnd unit sg ss rs ?n False 0 st of
      Inl e \<Rightarrow> e = KeyError \<and> (\<exists>slot \<in> set ss. day_names (day_of_week slot) = None)
    | Inr (scheduled, attempts, st') \<Rightarrow>
        attempts \<le> ?n \<and>
        prefix (timetable_entries st) (timetable_entries st') \<and>
        (if scheduled
         then length (timetable_entries st') = length (timetable_entries st) + 1
         else attempts = ?n \<and> (\<exists>d. st' = st\<lparr>draws := d\<rparr>))"
  proof (cases "placement_loop rnd unit sg ss rs ?n False 0 st")
    case (Inl e)
    have "\<not> (ss = [] \<or> rs = [])"
    proof
      assume "ss = [] \<or> rs = []"
      then have "\<not> 0 < ?n" by auto
      then have "placement_loop rnd unit sg ss rs ?n False 0 st = Inr (False, 0, st)"
        by (intro placement_loop_stop) simp
      with Inl show False by simp
    qed
    with placement_loop_errors [OF Inl] Inl show ?thesis by simp
  next
    case (Inr r)
    obtain sch att st' where r: "r = (sch, att, st')" by (cases r)
    from placement_loop_shape [OF Inr [unfolded r]]
    have att: "att \<le> ?n"
      and shape: "(sch = False \<and> (\<not> sch \<longrightarrow> ?n \<le> att) \<and> (\<exists>d. st' = st\<lparr>draws := d\<rparr>)) \<or>
        (sch \<and> (\<exists>slot \<in> set ss. \<exists>room \<in> set rs. \<exists>d.
           st' = placed unit sg slot room (st\<lparr>draws := d\<rparr>)))"
      by auto
    from shape have "prefix (timetable_entries st) (timetable_entries st') \<and>
        (if sch
         then length (timetable_entries st') = length (timetable_entries st) + 1
         else att = ?n \<and> (\<exists>d. st' = st\<lparr>draws := d\<rparr>))"
    proof
      assume "sch = False \<and> (\<not> sch \<longrightarrow> ?n \<le> att) \<and> (\<exists>d. st' = st\<lparr>draws := d\<rparr>)"
      with att show ?thesis by auto
    next
      assume "sch \<and> (\<exists>slot \<in> set ss. \<exists>room \<in> set rs. \<exists>d.
           st' = placed unit sg slot room (st\<lparr>draws := d\<rparr>))"
      then show ?thesis by (auto simp: placed_def)
    qed
    with att Inr r show ?thesis by simp
  qed
next
  let ?n = "min 100 (length ss * length rs)"
  show "ss = [slot] \<and> rs = [room] \<and>
    ((day_of_week slot, start_time slot) \<in> lecturer_schedule st (Unit.lecturer_id unit) \<or>
     (day_of_week slot, start_time slot) \<in> room_schedule st (Room.id room) \<or>
     (day_of_week slot, start_time slot) \<in> student_schedule st (StudentGroup.id sg)) \<longrightarrow>
    placement_loop rnd unit sg ss rs ?n False 0 st = Inr (False, 1, st\<lparr>draws := draws st + 2\<rparr>)"
  proof
    assume a: "ss = [slot] \<and> rs = [room] \<and>
    ((day_of_week slot, start_time slot) \<in> lecturer_schedule st (Unit.lecturer_id unit) \<or>
     (day_of_week slot, start_time slot) \<in> room_schedule st (Room.id room) \<or>
     (day_of_week slot, start_time slot) \<in> student_schedule st (StudentGroup.id sg))"
    then have n: "?n = 1" and busy: "\<not> slot_free unit sg slot room st"
      by (auto simp: slot_free_def)
    have "placement_loop rnd unit sg [slot] [room] 1 False 0 st =
        placement_loop rnd unit sg [slot] [room] 1 False (0 + 1) (st\<lparr>draws := draws st + 2\<rparr>)"
      using busy by (subst placement_loop_step [where slot = slot and room = room])
        (simp_all add: choice_single)
    also have "\<dots> = Inr (False, 0 + 1, st\<lparr>draws := draws st + 2\<rparr>)"
      by (rule placement_loop_stop) simp
    finally show "placement_loop rnd unit sg ss rs ?n False 0 st =
        Inr (False, 1, st\<lparr>draws := draws st + 2\<rparr>)"
      using a n by simp
  qed
qed

text \<open>
  One slot (Monday 7:00), one room, and the unit's lecturer already booked at that key:
  one trial, nothing placed, two random draws consumed.
\<close>

theorem placement_loop_bounded_witness:
  "(1, time 7 0) \<in> lecturer_schedule busy_state (Unit.lecturer_id (units example_db ! 0)) \<and>
   (day_of_week (time_slots example_db ! 0), start_time (time_slots example_db ! 0)) = (1, time 7 0) \<and>
   placement_loop (\<lambda>n. n) (units example_db ! 0) (student_groups example_db ! 0)
     [time_slots example_db ! 0] [rooms example_db ! 0] (min 100 (1 * 1)) False 0 busy_state =
     Inr (False, 1, busy_state\<lparr>draws := 2\<rparr>)"
proof -
  have key: "(day_of_week (time_slots example_db ! 0), start_time (time_slots example_db ! 0)) =
      (1, time 7 0)"
    by (simp add: example_db_def)
  have busy: "(1, time 7 0) \<in> lecturer_schedule busy_state (Unit.lecturer_id (units example_db ! 0))"
    by (simp add: busy_state_def example_db_def)
  have d: "draws busy_state = 0"
    by (simp add: busy_state_def initial_state_def)
  from placement_loop_bounded [where rnd = "\<lambda>n. n" and unit = "units example_db ! 0"
      and sg = "student_groups example_db ! 0" and ss = "[time_slots example_db ! 0]"
      and rs = "[rooms example_db ! 0]" and st = busy_state
      and slot = "time_slots example_db ! 0" and room = "rooms example_db ! 0"] key busy
  have "placement_loop (\<lambda>n. n) (units example_db ! 0) (student_groups example_db ! 0)
     [time_slots example_db ! 0] [rooms example_db ! 0] (min 100 (1 * 1)) False 0 busy_state =
     Inr (False, 1, busy_state\<lparr>draws := draws busy_state + 2\<rparr>)"
    by simp
  with key busy d show ?thesis by simp
qed

section \<open>The invariant of a run\<close>

lemma sched_inv_draws [simp]: "sched_inv db (st\<lparr>draws := d\<rparr>) = sched_inv db st"
  by (simp add: sched_inv_def entry_ok_def entry_of_def)

lemma sched_inv_initial: "sched_inv db initial_state"
  by (simp add: sched_inv_def initial_state_def no_double_booking_def)

lemma entry_ok_mono:
  assumes "entry_ok db st e"
    and "\<And>k. lecturer_schedule st k \<subseteq> lecturer_schedule st' k"
    and "\<And>k. room_schedule st k \<subseteq> room_schedule st' k"
    and "\<And>k. student_schedule st k \<subseteq> student_schedule st' k"
  shows "entry_ok db st' e"
proof -
  from assms(1) obtain u r s g where mem: "u \<in> set (units db)" "r \<in> set (rooms db)"
      "s \<in> set (time_slots db)" "g \<in> set (student_groups db)"
    and e: "entry_of st e u r s g"
    unfolding entry_ok_def by blast
  from e assms(2-4) have "entry_of st' e u r s g"
    unfolding entry_of_def by blast
  with mem show ?thesis
    unfolding entry_ok_def by blast
qed

lemma entry_ok_placed_old:
  "entry_ok db st e \<Longrightarrow> entry_ok db (placed unit sg slot room st) e"
  by (erule entry_ok_mono) (auto simp: placed_def)

lemma entry_ok_placed_new:
  assumes "unit \<in> set (units db)" "sg \<in> set (student_groups db)"
    "slot \<in> set (time_slots db)" "room \<in> set (rooms db)"
    "room_type room = (if truthy (requires_lab unit) then ''lab'' else ''normal'')"
  shows "entry_ok db (placed unit sg slot room st)
           (DBTimetableEntry (Unit.id unit) (Unit.lecturer_id unit) (Room.id room)
              (TimeSlot.id slot) (StudentGroup.id sg))"
  unfolding entry_ok_def entry_of_def placed_def using assms
  by (intro bexI [of _ unit] bexI [of _ room] bexI [of _ slot] bexI [of _ sg]) simp_all

lemma same_slot:
  assumes "distinct (map TimeSlot.id (time_slots db))"
    "s \<in> set (time_slots db)" "s' \<in> set (time_slots db)" "TimeSlot.id s = TimeSlot.id s'"
  shows "s = s'"
  using assms by (meson distinct_map inj_onD)

lemma no_clash_with_new:
  assumes ids: "distinct (map TimeSlot.id (time_slots db))"
    and ok: "entry_ok db st e"
    and slot: "slot \<in> set (time_slots db)"
    and free: "slot_free unit sg slot room st"
    and same: "time_slot_id e = TimeSlot.id slot"
  shows "TimetableEntry.lecturer_id e \<noteq> Unit.lecturer_id unit \<and>
         room_id e \<noteq> Some (Room.id room) \<and> student_group_id e \<noteq> Some (StudentGroup.id sg)"
proof -
  from ok obtain u r s g where s: "s \<in> set (time_slots db)"
    and eo: "entry_of st e u r s g"
    unfolding entry_ok_def by blast
  from eo have e: "e = DBTimetableEntry (Unit.id u) (Unit.lecturer_id u) (Room.id r)
      (TimeSlot.id s) (StudentGroup.id g)"
    and occ: "(day_of_week s, start_time s) \<in> lecturer_schedule st (Unit.lecturer_id u)"
      "(day_of_week s, start_time s) \<in> room_schedule st (Room.id r)"
      "(day_of_week s, start_time s) \<in> student_schedule st (StudentGroup.id g)"
    by (simp_all add: entry_of_def)
  from e same have "TimeSlot.id s = TimeSlot.id slot"
    by (simp add: DBTimetableEntry_def)
  with ids s slot have "s = slot" by (rule same_slot)
  with occ free e show ?thesis
    by (auto simp: slot_free_def DBTimetableEntry_def)
qed

lemma sched_inv_placed:
  assumes inv: "sched_inv db st"
    and ids: "distinct (map TimeSlot.id (time_slots db))"
    and mem: "unit \<in> set (units db)" "sg \<in> set (student_groups db)"
      "slot \<in> set (time_slots db)" "room \<in> set (rooms db)"
    and rt: "room_type room = (if truthy (requires_lab unit) then ''lab'' else ''normal'')"
    and free: "slot_free unit sg slot room st"
  shows "sched_inv db (placed unit sg slot room st)"
proof -
  let ?new = "DBTimetableEntry (Unit.id unit) (Unit.lecturer_id unit) (Room.id room)
                (TimeSlot.id slot) (StudentGroup.id sg)"
  let ?es = "timetable_entries st"
  have es': "timetable_entries (placed unit sg slot room st) = ?es @ [?new]"
    by (simp add: placed_def)
  from inv have ok: "\<forall>e \<in> set ?es. entry_ok db st e" and nd: "no_double_booking ?es"
    by (simp_all add: sched_inv_def)
  have "\<forall>e \<in> set (?es @ [?new]). entry_ok db (placed unit sg slot room st) e"
    using ok entry_ok_placed_old entry_ok_placed_new [OF mem rt] by auto
  moreover have "no_double_booking (?es @ [?new])"
    unfolding no_double_booking_def
  proof
    fix sid
    let ?old = "filter (\<lambda>e. time_slot_id e = sid) ?es"
    show "distinct (map TimetableEntry.lecturer_id (filter (\<lambda>e. time_slot_id e = sid) (?es @ [?new]))) \<and>
          distinct (map room_id (filter (\<lambda>e. time_slot_id e = sid) (?es @ [?new]))) \<and>
          distinct (map student_group_id (filter (\<lambda>e. time_slot_id e = sid) (?es @ [?new])))"
    proof (cases "time_slot_id ?new = sid")
      case False
      with nd show ?thesis by (simp add: no_double_booking_def)
    next
      case True
      then have sid: "sid = TimeSlot.id slot" by (simp add: DBTimetableEntry_def)
      have "\<forall>e \<in> set ?old. TimetableEntry.lecturer_id e \<noteq> Unit.lecturer_id unit \<and>
         room_id e \<noteq> Some (Room.id room) \<and> student_group_id e \<noteq> Some (StudentGroup.id sg)"
        using ok no_clash_with_new [OF ids _ mem(3) free] sid by simp
      then have "Unit.lecturer_id unit \<notin> set (map TimetableEntry.lecturer_id ?old)"
        "Some (Room.id room) \<notin> set (map room_id ?old)"
        "Some (StudentGroup.id sg) \<notin> set (map student_group_id ?old)"
        by auto
      moreover have "TimetableEntry.lecturer_id ?new = Unit.lecturer_id unit"
        "room_id ?new = Some (Room.id room)" "student_group_id ?new = Some (StudentGroup.id sg)"
        by (simp_all add: DBTimetableEntry_def)
      ultimately show ?thesis
        using nd True by (simp add: no_double_booking_def)
    qed
  qed
  ultimately show ?thesis
    by (simp add: sched_inv_def es')
qed

lemma find_SomeD: "find P xs = Some x \<Longrightarrow> x \<in> set xs \<and> P x"
  by (auto simp: find_Some_iff)

lemma schedule_unit_cases:
  assumes res: "schedule_unit db rnd unit st = Inr st'"
  obtains (skip) "st' = st"
  | (loop) sg ss rs sch att where "sg \<in> set (student_groups db)"
      "set ss \<subseteq> set (time_slots db)" "set rs \<subseteq> set (rooms db)"
      "\<forall>r \<in> set rs. room_type r = (if truthy (requires_lab unit) then ''lab'' else ''normal'')"
      "placement_loop rnd unit sg ss rs (min 100 (length ss * length rs)) False 0 st =
         Inr (sch, att, st')"
proof (cases "find (\<lambda>g. StudentGroup.department_id g = Unit.department_id unit \<and>
                      StudentGroup.year_level g = Unit.year_level unit) (student_groups db)")
  case None
  with res have "st' = st" by (simp add: schedule_unit_def)
  then show thesis by (rule skip)
next
  case sg: (Some sg)
  then have mem: "sg \<in> set (student_groups db)" by (simp add: find_SomeD)
  show thesis
  proof (cases "find (\<lambda>d. Some (Department.id d) = Unit.department_id unit) (departments db)")
    case None
    with res sg show thesis by (simp add: schedule_unit_def)
  next
    case dept: (Some dept)
    show thesis
    proof (cases "find (\<lambda>s. Some (School.id s) = school_id dept) (schools db)")
      case None
      with res sg dept show thesis by (simp add: schedule_unit_def)
    next
      case school: (Some school)
      define rs where "rs = (if truthy (requires_lab unit)
        then filter (\<lambda>r. room_type r = ''lab'') (rooms db)
        else filter (\<lambda>r. room_type r = ''normal'') (rooms db))"
      define ss where "ss = filter (\<lambda>ts. TimeSlot.session_type ts =
        (if School.code school = ''SPAS'' then ''spas_3h'' else ''shs_2h'')) (time_slots db)"
      have eq: "schedule_unit db rnd unit st =
        (if rs = [] then Inr st else if ss = [] then Inr st
         else case placement_loop rnd unit sg ss rs (min 100 (length ss * length rs)) False 0 st of
                Inl e \<Rightarrow> Inl e
              | Inr (scheduled, attempts, st') \<Rightarrow> Inr st')"
        unfolding schedule_unit_def Let_def sg dept school option.case
          rs_def [symmetric] ss_def [symmetric] by (rule refl)
      show thesis
      proof (cases "rs = [] \<or> ss = []")
        case True
        with res [unfolded eq] have "st' = st" by (auto split: if_splits)
        then show thesis by (rule skip)
      next
        case False
        with res [unfolded eq] obtain sch att where
          "placement_loop rnd unit sg ss rs (min 100 (length ss * length rs)) False 0 st =
             Inr (sch, att, st')"
          by (cases "placement_loop rnd unit sg ss rs (min 100 (length ss * length rs)) False 0 st")
             auto
        moreover have "set ss \<subseteq> set (time_slots db)" "set rs \<subseteq> set (rooms db)"
          "\<forall>r \<in> set rs. room_type r = (if truthy (requires_lab unit) then ''lab'' else ''normal'')"
          by (auto simp: ss_def rs_def)
        ultimately show thesis using mem by (intro loop [of sg ss rs sch att])
      qed
    qed
  qed
qed

lemma schedule_unit_inv:
  assumes res: "schedule_unit db rnd unit st = Inr st'"
    and inv: "sched_inv db st"
    and ids: "distinct (map TimeSlot.id (time_slots db))"
    and unit: "unit \<in> set (units db)"
  shows "sched_inv db st'"
  using res
proof (cases rule: schedule_unit_cases)
  case skip
  with inv show ?thesis by simp
next
  case (loop sg ss rs sch att)
  from placement_loop_shape [OF loop(5)]
  consider d where "st' = st\<lparr>draws := d\<rparr>"
    | slot room d where "slot \<in> set ss" "room \<in> set rs" "slot_free unit sg slot room st"
        "st' = placed unit sg slot room (st\<lparr>draws := d\<rparr>)"
    by blast
  then show ?thesis
  proof cases
    case 1
    with inv show ?thesis by simp
  next
    case 2
    have "slot_free unit sg slot room (st\<lparr>draws := d\<rparr>)"
      using 2(3) by (simp add: slot_free_def)
    moreover have "sched_inv db (st\<lparr>draws := d\<rparr>)" using inv by simp
    moreover from 2(1,2) loop(2,3,4) have "slot \<in> set (time_slots db)" "room \<in> set (rooms db)"
      "room_type room = (if truthy (requires_lab unit) then ''lab'' else ''normal'')"
      by blast+
    ultimately show ?thesis
      unfolding 2(4) using ids unit loop(1) by (intro sched_inv_placed)
  qed
qed

lemma schedule_units_inv:
  assumes "schedule_units db rnd us st = Inr st'"
    and "sched_inv db st"
    and "distinct (map TimeSlot.id (time_slots db))"
    and "set us \<subseteq> set (units db)"
  shows "sched_inv db st'"
  using assms
proof (induction us arbitrary: st)
  case Nil
  then show ?case by simp
next
  case (Cons u us)
  from Cons.prems(1) obtain st1 where u: "schedule_unit db rnd u st = Inr st1"
    and rest: "schedule_units db rnd us st1 = Inr st'"
    by (auto split: sum.splits)
  from u Cons.prems have "sched_inv db st1"
    by (intro schedule_unit_inv [OF u]) auto
  with Cons.prems show ?case
    by (intro Cons.IH [OF rest]) auto
qed

section \<open>The generated schedule\<close>

lemma flush_entries_fields:
  "map entry_fields (snd (flush_entries seq xs)) = map entry_fields xs"
  by (induction xs arbitrary: seq)
     (simp_all add: entry_fields_def with_defaults_def split_beta split: option.splits)

lemma filter_entry_fields:
  "map TimetableEntry.lecturer_id (filter (\<lambda>e. time_slot_id e = sid) xs) =
     map (\<lambda>(u, l, r, t, g). l) (filter (\<lambda>(u, l, r, t, g). t = sid) (map entry_fields xs))"
  "map room_id (filter (\<lambda>e. time_slot_id e = sid) xs) =
     map (\<lambda>(u, l, r, t, g). r) (filter (\<lambda>(u, l, r, t, g). t = sid) (map entry_fields xs))"
  "map student_group_id (filter (\<lambda>e. time_slot_id e = sid) xs) =
     map (\<lambda>(u, l, r, t, g). g) (filter (\<lambda>(u, l, r, t, g). t = sid) (map entry_fields xs))"
  by (induction xs) (auto simp: entry_fields_def)

lemma no_double_booking_fields:
  "map entry_fields xs = map entry_fields ys \<Longrightarrow> no_double_booking xs = no_double_booking ys"
  unfolding no_double_booking_def filter_entry_fields by simp

lemma fields_mem:
  assumes "map entry_fields xs = map entry_fields ys" "y \<in> set ys"
  obtains x where "x \<in> set xs" "entry_fields x = entry_fields y"
proof -
  from assms(2) have "entry_fields y \<in> set (map entry_fields ys)" by simp
  with assms(1) have "entry_fields y \<in> set (map entry_fields xs)" by simp
  then show thesis using that by auto
qed

lemma generate_schedule_cases:
  assumes "generate_schedule db rnd = Inr (db', es)"
  obtains "db' = db" "es = []"
  | st where "schedule_units db rnd
                (sort_key (\<lambda>u. (\<not> truthy (requires_lab u), Unit.year_level u)) (units db))
                initial_state = Inr st"
      "(db', es) = add_all_entries db (timetable_entries st)"
  using assms
  by (auto simp: generate_schedule_def Let_def split: if_splits sum.splits)

lemma add_all_entries_frame:
  assumes "(db', es) = add_all_entries db xs"
  shows "units db' = units db" "rooms db' = rooms db" "time_slots db' = time_slots db"
    "database.timetable_entries db' = database.timetable_entries db @ es"
    "map entry_fields es = map entry_fields xs"
  using assms flush_entries_fields [of "timetable_entries_id_seq db" xs]
  by (simp_all add: add_all_entries_def split_beta)

lemma generate_schedule_sound:
  assumes gen: "generate_schedule db rnd = Inr (db', es)"
    and ids: "distinct (map TimeSlot.id (time_slots db))"
  shows "no_double_booking es"
    and "\<forall>e \<in> set es. \<exists>u \<in> set (units db). \<exists>r \<in> set (rooms db).
           unit_id e = Some (Unit.id u) \<and> room_id e = Some (Room.id r) \<and>
           room_type r = (if truthy (requires_lab u) then ''lab'' else ''normal'')"
    and "units db' = units db" "rooms db' = rooms db"
proof -
  from gen have "no_double_booking es \<and>
     (\<forall>e \<in> set es. \<exists>u \<in> set (units db). \<exists>r \<in> set (rooms db).
           unit_id e = Some (Unit.id u) \<and> room_id e = Some (Room.id r) \<and>
           room_type r = (if truthy (requires_lab u) then ''lab'' else ''normal'')) \<and>
     units db' = units db \<and> rooms db' = rooms db"
  proof (cases rule: generate_schedule_cases)
    case 1
    then show ?thesis by (simp add: no_double_booking_def)
  next
    case (2 st)
    have "sched_inv db st"
      using 2(1) sched_inv_initial ids by (rule schedule_units_inv) simp
    then have ok: "\<forall>e \<in> set (timetable_entries st). entry_ok db st e"
      and nd: "no_double_booking (timetable_entries st)"
      by (simp_all add: sched_inv_def)
    note frame = add_all_entries_frame [OF 2(2)]
    from nd no_double_booking_fields [OF frame(5)] have "no_double_booking es"
      by simp
    moreover have "\<exists>u \<in> set (units db). \<exists>r \<in> set (rooms db).
           unit_id e = Some (Unit.id u) \<and> room_id e = Some (Room.id r) \<and>
           room_type r = (if truthy (requires_lab u) then ''lab'' else ''normal'')"
      if "e \<in> set es" for e
    proof -
      from frame(5) [symmetric] that obtain x where x: "x \<in> set (timetable_entries st)"
        "entry_fields x = entry_fields e"
        by (rule fields_mem)
      from ok x(1) obtain u r s g where "u \<in> set (units db)" "r \<in> set (rooms db)"
        "entry_of st x u r s g"
        unfolding entry_ok_def by blast
      moreover from this(3) x(2) have "unit_id e = Some (Unit.id u)" "room_id e = Some (Room.id r)"
        "room_type r = (if truthy (requires_lab u) then ''lab'' else ''normal'')"
        by (auto simp: entry_of_def entry_fields_def DBTimetableEntry_def)
      ultimately show ?thesis by blast
    qed
    ultimately show ?thesis using frame(1,2) by blast
  qed
  then show "no_double_booking es"
    and "\<forall>e \<in> set es. \<exists>u \<in> set (units db). \<exists>r \<in> set (rooms db).
           unit_id e = Some (Unit.id u) \<and> room_id e = Some (Room.id r) \<and>
           room_type r = (if truthy (requires_lab u) then ''lab'' else ''normal'')"
    and "units db' = units db" "rooms db' = rooms db"
    by blast+
qed

lemma find_by_id:
  assumes "distinct (map f xs)" "x \<in> set xs"
  shows "find (\<lambda>y. Some (f y) = Some (f x)) xs = Some x"
  using assms by (induction xs) auto

lemma resolved_rooms:
  assumes gen: "generate_schedule db rnd = Inr (db', es)"
    and pk: "primary_keys_unique db"
    and e: "e \<in> set es"
  shows "\<exists>unit room.
     find (\<lambda>u. Some (Unit.id u) = unit_id e) (units db) = Some unit \<and>
     find (\<lambda>r. Some (Room.id r) = room_id e) (rooms db) = Some room \<and>
     room_type room = (if truthy (requires_lab unit) then ''lab'' else ''normal'')"
proof -
  from pk have ids: "distinct (map TimeSlot.id (time_slots db))"
    "distinct (map Unit.id (units db))" "distinct (map Room.id (rooms db))"
    by (simp_all add: primary_keys_unique_def)
  from generate_schedule_sound(2) [OF gen ids(1)] e
  obtain u r where ur: "u \<in> set (units db)" "r \<in> set (rooms db)"
    "unit_id e = Some (Unit.id u)" "room_id e = Some (Room.id r)"
    "room_type r = (if truthy (requires_lab u) then ''lab'' else ''normal'')"
    by blast
  have "find (\<lambda>y. Some (Unit.id y) = Some (Unit.id u)) (units db) = Some u"
    using ids(2) ur(1) by (rule find_by_id)
  moreover have "find (\<lambda>y. Some (Room.id y) = Some (Room.id r)) (rooms db) = Some r"
    using ids(3) ur(2) by (rule find_by_id)
  ultimately show ?thesis using ur(3-5) by simp
qed

lemma lab_check_frame:
  "units db' = units db \<Longrightarrow> rooms db' = rooms db \<Longrightarrow> lab_check db' = lab_check db"
  by (rule ext) (simp add: lab_check_def split: option.splits)

lemma validate_frame:
  "units db' = units db \<Longrightarrow> rooms db' = rooms db \<Longrightarrow>
   validate_constraints db' es = validate_constraints db es"
proof -
  assume "units db' = units db" "rooms db' = rooms db"
  then have "lab_check db' = lab_check db" by (rule lab_check_frame)
  then show ?thesis by (simp add: validate_constraints_def)
qed

text \<open>
  C1. For every store (its primary keys unique, as the primary-key constraints of the
  tables make them) and every outcome of the random draws, the entries that
  \<open>generate_schedule\<close> returns validate against that store, as it was before the
  run and as it is after the commit: \<open>is_valid = True\<close> and no conflicts.
\<close>

theorem generated_schedule_validates:
  assumes "primary_keys_unique db"
    and "generate_schedule db rnd = Inr (db', es)"
  shows "validate_constraints db es = \<lparr>is_valid = True, conflicts = [], warnings = []\<rparr> \<and>
         validate_constraints db' es = \<lparr>is_valid = True, conflicts = [], warnings = []\<rparr>"
proof -
  from assms(1) have ids: "distinct (map TimeSlot.id (time_slots db))"
    by (simp add: primary_keys_unique_def)
  have "no_double_booking es"
    using assms(2) ids by (rule generate_schedule_sound(1))
  then have "concat (map double_bookings (slot_bookings es)) = []"
    unfolding no_double_booking_def by (rule no_double_bookings_iff [THEN iffD2])
  moreover have "lab_check db e = []" if "e \<in> set es" for e
    using resolved_rooms [OF assms(2,1) that] by (auto simp: lab_check_def)
  then have "concat (map (lab_check db) es) = []" by simp
  ultimately have "validate_constraints db es = \<lparr>is_valid = True, conflicts = [], warnings = []\<rparr>"
    by (simp add: validate_constraints_def)
  moreover have "validate_constraints db' es = validate_constraints db es"
    using generate_schedule_sound(3,4) [OF assms(2) ids] by (rule validate_frame)
  ultimately show ?thesis by simp
qed

text \<open>
  C2. In the entries that \<open>generate_schedule\<close> returns, for every time-slot id, the
  lecturer ids, the room ids and the student-group ids of the entries at that slot each
  contain no duplicates (the store's primary keys being unique).
\<close>

theorem generated_schedule_no_double_booking:
  assumes "primary_keys_unique db"
    and "generate_schedule db rnd = Inr (db', es)"
  shows "distinct (map TimetableEntry.lecturer_id (filter (\<lambda>e. time_slot_id e = sid) es)) \<and>
         distinct (map room_id (filter (\<lambda>e. time_slot_id e = sid) es)) \<and>
         distinct (map student_group_id (filter (\<lambda>e. time_slot_id e = sid) es))"
proof -
  from assms(1) have ids: "distinct (map TimeSlot.id (time_slots db))"
    by (simp add: primary_keys_unique_def)
  have "no_double_booking es"
    using assms(2) ids by (rule generate_schedule_sound(1))
  then show ?thesis
    by (simp add: no_double_booking_def)
qed

text \<open>
  C3. Every entry that \<open>generate_schedule\<close> returns resolves to a unit and a room of
  the store, and the room's type is "lab" if the unit requires a lab and "normal"
  otherwise (the store's primary keys being unique).
\<close>

theorem generated_schedule_room_types:
  assumes "primary_keys_unique db"
    and "generate_schedule db rnd = Inr (db', es)"
    and "e \<in> set es"
  shows "\<exists>unit room.
     find (\<lambda>u. Some (Unit.id u) = unit_id e) (units db) = Some unit \<and>
     find (\<lambda>r. Some (Room.id r) = room_id e) (rooms db) = Some room \<and>
     room_type room = (if truthy (requires_lab unit) then ''lab'' else ''normal'')"
  using assms(2,1,3) by (rule resolved_rooms)

lemma example_keys: "primary_keys_unique example_db"
  by (simp add: primary_keys_unique_def example_db_def)

lemma example_run:
  "generate_schedule example_db (\<lambda>n. n div 2) =
     Inr (example_db\<lparr>database.timetable_entries := example_entries,
                      timetable_entries_id_seq := 2\<rparr>, example_entries)"
  by (simp add: generate_schedule_def example_db_def schedule_unit_def truthy_def
      initial_state_def choice_def time_def day_names_def DBTimetableEntry_def
      add_all_entries_def with_defaults_def Let_def example_entries_def placement_loop.simps)

text \<open>
  On \<open>example_db\<close> with the draws 0, 0, 1, 1 the run places both units: the lab
  unit in the lab at the first slot, the lecture unit in the hall at the second slot. The
  two committed entries validate.
\<close>

theorem generated_schedule_validates_witness:
  "primary_keys_unique example_db \<and>
   generate_schedule example_db (\<lambda>n. n div 2) =
     Inr (example_db\<lparr>database.timetable_entries := example_entries,
                      timetable_entries_id_seq := 2\<rparr>, example_entries) \<and>
   length example_entries = 2 \<and>
   validate_constraints example_db example_entries =
     \<lparr>is_valid = True, conflicts = [], warnings = []\<rparr>"
  using generated_schedule_validates [OF example_keys example_run] example_keys example_run
  by (simp add: example_entries_def)

text \<open>The same run, at time slot 1.\<close>

theorem generated_schedule_no_double_booking_witness:
  "primary_keys_unique example_db \<and>
   generate_schedule example_db (\<lambda>n. n div 2) =
     Inr (example_db\<lparr>database.timetable_entries := example_entries,
                      timetable_entries_id_seq := 2\<rparr>, example_entries) \<and>
   distinct (map TimetableEntry.lecturer_id
     (filter (\<lambda>e. time_slot_id e = Some 1) example_entries)) \<and>
   distinct (map room_id (filter (\<lambda>e. time_slot_id e = Some 1) example_entries)) \<and>
   distinct (map student_group_id (filter (\<lambda>e. time_slot_id e = Some 1) example_entries))"
  using generated_schedule_no_double_booking [OF example_keys example_run, of "Some 1"]
    example_keys example_run
  by simp

text \<open>The same run, at its first entry: the lab unit in the lab.\<close>

theorem generated_schedule_room_types_witness:
  "primary_keys_unique example_db \<and>
   generate_schedule example_db (\<lambda>n. n div 2) =
     Inr (example_db\<lparr>database.timetable_entries := example_entries,
                      timetable_entries_id_seq := 2\<rparr>, example_entries) \<and>
   example_entries ! 0 \<in> set example_entries \<and>
   (\<exists>unit room.
     find (\<lambda>u. Some (Unit.id u) = unit_id (example_entries ! 0)) (units example_db) = Some unit \<and>
     find (\<lambda>r. Some (Room.id r) = room_id (example_entries ! 0)) (rooms example_db) = Some room \<and>
     room_type room = (if truthy (requires_lab unit) then ''lab'' else ''normal''))"
proof -
  have mem: "example_entries ! 0 \<in> set example_entries"
    by (simp add: example_entries_def)
  from generated_schedule_room_types [OF example_keys example_run mem] example_keys example_run mem
  show ?thesis by simp
qed

section \<open>Early exit and failure\<close>

text \<open>
  C8. If the store has no unit, no time slot or no room, \<open>generate_schedule\<close> returns
  the empty entry list without raising, and the store is as it was: nothing is placed and
  nothing is committed.
\<close>

theorem generate_schedule_early_exit:
  "units db = [] \<or> time_slots db = [] \<or> rooms db = [] \<Longrightarrow>
   generate_schedule db rnd = Inr (db, [])"
  by (auto simp: generate_schedule_def)

text \<open>The example store without rooms: it has units and slots, and nothing is scheduled.\<close>

theorem generate_schedule_early_exit_witness:
  "(units (example_db\<lparr>rooms := []\<rparr>) = [] \<or> time_slots (example_db\<lparr>rooms := []\<rparr>) = [] \<or>
    rooms (example_db\<lparr>rooms := []\<rparr>) = []) \<and>
   units (example_db\<lparr>rooms := []\<rparr>) \<noteq> [] \<and>
   generate_schedule (example_db\<lparr>rooms := []\<rparr>) (\<lambda>n. n) = Inr (example_db\<lparr>rooms := []\<rparr>, [])"
proof -
  have h: "units (example_db\<lparr>rooms := []\<rparr>) = [] \<or> time_slots (example_db\<lparr>rooms := []\<rparr>) = [] \<or>
    rooms (example_db\<lparr>rooms := []\<rparr>) = []" by simp
  have "units (example_db\<lparr>rooms := []\<rparr>) \<noteq> []" by (simp add: example_db_def)
  with h generate_schedule_early_exit [OF h, of "\<lambda>n. n"] show ?thesis by simp
qed

text \<open>
  The run returns whenever the relations resolve and every slot lies on a named day (the
  check constraint of the time-slot table, days 1 to 5): the two unguarded lookups and the
  day-name lookup are the only places where it can raise.
\<close>

lemma placement_loop_returns:
  assumes "\<forall>slot \<in> set ss. day_names (day_of_week slot) \<noteq> None" "ss \<noteq> []" "rs \<noteq> []"
  shows "\<exists>r. placement_loop rnd unit sg ss rs maxa scheduled attempts st = Inr r"
proof (cases "placement_loop rnd unit sg ss rs maxa scheduled attempts st")
  case (Inl e)
  from placement_loop_errors [OF Inl] assms show ?thesis by auto
next
  case (Inr r)
  then show ?thesis by blast
qed

lemma schedule_unit_returns:
  assumes res: "relations_resolve db" and unit: "unit \<in> set (units db)"
    and days: "\<forall>slot \<in> set (time_slots db). day_names (day_of_week slot) \<noteq> None"
  shows "\<exists>st'. schedule_unit db rnd unit st = Inr st'"
proof (cases "find (\<lambda>g. StudentGroup.department_id g = Unit.department_id unit \<and>
                      StudentGroup.year_level g = Unit.year_level unit) (student_groups db)")
  case None
  then show ?thesis by (simp add: schedule_unit_def)
next
  case sg: (Some sg)
  with res unit obtain dept school where
    dept: "find (\<lambda>d. Some (Department.id d) = Unit.department_id unit) (departments db) = Some dept"
    and school: "find (\<lambda>s. Some (School.id s) = school_id dept) (schools db) = Some school"
    unfolding relations_resolve_def by fastforce
  define rs where "rs = (if truthy (requires_lab unit)
        then filter (\<lambda>r. room_type r = ''lab'') (rooms db)
        else filter (\<lambda>r. room_type r = ''normal'') (rooms db))"
  define ss where "ss = filter (\<lambda>ts. TimeSlot.session_type ts =
        (if School.code school = ''SPAS'' then ''spas_3h'' else ''shs_2h'')) (time_slots db)"
  have eq: "schedule_unit db rnd unit st =
        (if rs = [] then Inr st else if ss = [] then Inr st
         else case placement_loop rnd unit sg ss rs (min 100 (length ss * length rs)) False 0 st of
                Inl e \<Rightarrow> Inl e
              | Inr (scheduled, attempts, st') \<Rightarrow> Inr st')"
    unfolding schedule_unit_def Let_def sg dept school option.case
          rs_def [symmetric] ss_def [symmetric] by (rule refl)
  show ?thesis
  proof (cases "rs = [] \<or> ss = []")
    case True
    with eq show ?thesis by auto
  next
    case False
    have "\<forall>slot \<in> set ss. day_names (day_of_week slot) \<noteq> None"
      using days by (simp add: ss_def)
    with False obtain r where
      "placement_loop rnd unit sg ss rs (min 100 (length ss * length rs)) False 0 st = Inr r"
      using placement_loop_returns [of ss rs] by blast
    with False eq show ?thesis by (cases r) simp
  qed
qed

lemma schedule_units_returns:
  assumes "relations_resolve db" "set us \<subseteq> set (units db)"
    "\<forall>slot \<in> set (time_slots db). day_names (day_of_week slot) \<noteq> None"
  shows "\<exists>st'. schedule_units db rnd us st = Inr st'"
  using assms(2)
proof (induction us arbitrary: st)
  case Nil
  then show ?case by simp
next
  case (Cons u us)
  then have "u \<in> set (units db)" by simp
  from schedule_unit_returns [OF assms(1) this assms(3)]
  obtain st1 where "schedule_unit db rnd u st = Inr st1" by blast
  moreover from Cons obtain st' where "schedule_units db rnd us st1 = Inr st'" by auto
  ultimately show ?case by simp
qed

lemma generate_schedule_returns:
  assumes "relations_resolve db"
    "\<forall>slot \<in> set (time_slots db). day_names (day_of_week slot) \<noteq> None"
  shows "\<exists>db' es. generate_schedule db rnd = Inr (db', es)"
proof -
  obtain st where "schedule_units db rnd
      (sort_key (\<lambda>u. (\<not> truthy (requires_lab u), Unit.year_level u)) (units db))
      initial_state = Inr st"
    using schedule_units_returns [OF assms(1) _ assms(2)] by force
  then show ?thesis
    by (cases "add_all_entries db (timetable_entries st)")
       (simp add: generate_schedule_def Let_def)
qed

text \<open>
  C7. On the store \<open>orphan_db\<close>, whose only department belongs to no school, the first
  unit finds its student group and its department, the school lookup finds nothing, and
  \<open>school.code\<close> raises AttributeError: \<open>generate_schedule\<close> returns no entries,
  whatever the random draws.
\<close>

theorem generate_schedule_raises_on_null_school:
  "generate_schedule orphan_db rnd = Inl AttributeError"
  by (simp add: generate_schedule_def orphan_db_def example_db_def schedule_unit_def truthy_def)

end
